theory Spec2Isabelle
  imports Main "HOL-Library.Sublist"
begin

section \<open>Go strings\<close>

text \<open>
  A Go \<open>string\<close> is a sequence of bytes; it is modelled as \<open>string\<close> (a list of 8-bit
  characters). Indices are Go \<open>int\<close>s, modelled as \<open>int\<close>, with \<open>-1\<close> for "not found".
  Slice expressions \<open>s[:hi]\<close>, \<open>s[lo:]\<close> and index expressions \<open>a[i]\<close> panic out of
  range; the checked versions below return the panic as a value.
\<close>

datatype panic = SliceBoundsOutOfRange | IndexOutOfRange

definition andThen :: "'e + 'a \<Rightarrow> ('a \<Rightarrow> 'e + 'b) \<Rightarrow> 'e + 'b" where
  "andThen m f = (case m of Inl e \<Rightarrow> Inl e | Inr x \<Rightarrow> f x)"

definition slice_to :: "string \<Rightarrow> int \<Rightarrow> panic + string" where
  \<comment> \<open>\<open>s[:hi]\<close>\<close>
  "slice_to s hi =
     (if 0 \<le> hi \<and> hi \<le> int (length s) then Inr (take (nat hi) s)
      else Inl SliceBoundsOutOfRange)"

definition slice_from :: "string \<Rightarrow> int \<Rightarrow> panic + string" where
  \<comment> \<open>\<open>s[lo:]\<close>\<close>
  "slice_from s lo =
     (if 0 \<le> lo \<and> lo \<le> int (length s) then Inr (drop (nat lo) s)
      else Inl SliceBoundsOutOfRange)"

definition index_at :: "'a list \<Rightarrow> int \<Rightarrow> panic + 'a" where
  \<comment> \<open>\<open>a[i]\<close>\<close>
  "index_at a i =
     (if 0 \<le> i \<and> i < int (length a) then Inr (a ! nat i) else Inl IndexOutOfRange)"

fun Index :: "string \<Rightarrow> string \<Rightarrow> int" where
  \<comment> \<open>\<open>strings.Index\<close>: byte offset of the first occurrence, \<open>-1\<close> if there is none\<close>
  "Index [] substr = (if substr = [] then 0 else - 1)"
| "Index (c # s) substr =
     (if prefix substr (c # s) then 0
      else (let i = Index s substr in if i = - 1 then - 1 else i + 1))"

fun LastIndex :: "string \<Rightarrow> string \<Rightarrow> int" where
  \<comment> \<open>\<open>strings.LastIndex\<close>: byte offset of the last occurrence, \<open>-1\<close> if there is none\<close>
  "LastIndex [] substr = (if substr = [] then 0 else - 1)"
| "LastIndex (c # s) substr =
     (let i = LastIndex s substr in
      if i \<noteq> - 1 then i + 1 else if prefix substr (c # s) then 0 else - 1)"

definition Contains :: "string \<Rightarrow> string \<Rightarrow> bool" where
  \<comment> \<open>\<open>strings.Contains(s, substr)\<close> is \<open>Index(s, substr) >= 0\<close>\<close>
  "Contains s substr = (0 \<le> Index s substr)"

text \<open>
  \<open>strings.Split\<close> and \<open>strings.SplitN\<close>. Every call in the program passes a separator
  of one byte (\<open>":"\<close>, \<open>","\<close>, \<open>"/"\<close>, \<open>"="\<close>), so the separator is a \<open>char\<close>. With such a
  separator \<open>Split\<close> returns the pieces between the separators (one piece, the string
  itself, when there is none); \<open>SplitN\<close> with \<open>n > 0\<close> returns at most \<open>n\<close> pieces, the last
  one being the unsplit rest, and \<open>nil\<close> for \<open>n = 0\<close>.
\<close>

fun Split :: "string \<Rightarrow> char \<Rightarrow> string list" where
  "Split [] sep = [[]]"
| "Split (c # s) sep =
     (if c = sep then [] # Split s sep
      else (let r = Split s sep in (c # hd r) # tl r))"

fun SplitN :: "string \<Rightarrow> char \<Rightarrow> nat \<Rightarrow> string list" where
  "SplitN s sep 0 = []"
| "SplitN s sep (Suc 0) = [s]"
| "SplitN [] sep (Suc (Suc n)) = [[]]"
| "SplitN (c # s) sep (Suc (Suc n)) =
     (if c = sep then [] # SplitN s sep (Suc n)
      else (let r = SplitN s sep (Suc (Suc n)) in (c # hd r) # tl r))"

definition TrimPrefix :: "string \<Rightarrow> string \<Rightarrow> string" where
  \<comment> \<open>\<open>strings.TrimPrefix\<close>\<close>
  "TrimPrefix s pre = (if prefix pre s then drop (length pre) s else s)"

definition Trim :: "string \<Rightarrow> string \<Rightarrow> string" where
  \<comment> \<open>\<open>strings.Trim(s, cutset)\<close> for a cutset of ASCII bytes (the program's is \<open>"\""\<close>):
      all leading and trailing bytes of the cutset are removed\<close>
  "Trim s cutset =
     rev (dropWhile (\<lambda>c. c \<in> set cutset) (rev (dropWhile (\<lambda>c. c \<in> set cutset) s)))"

text \<open>
  \<open>strings.TrimSpace\<close> removes leading and trailing white space as \<open>unicode.IsSpace\<close>
  defines it: the six ASCII bytes tab, newline, vertical tab, form feed, carriage return
  and space, and the code points U+0085, U+00A0, U+1680, U+2000 to U+200A, U+2028,
  U+2029, U+202F, U+205F and U+3000, which a Go string holds in UTF-8. A byte sequence
  decodes to one of these code points exactly when it is the encoding listed here.
\<close>

definition spaceRunes :: "string list" where
  "spaceRunes =
     [[CHR 0x09], [CHR 0x0A], [CHR 0x0B], [CHR 0x0C], [CHR 0x0D], [CHR 0x20],
      [CHR 0xC2, CHR 0x85], [CHR 0xC2, CHR 0xA0], [CHR 0xE1, CHR 0x9A, CHR 0x80],
      [CHR 0xE2, CHR 0x80, CHR 0x80], [CHR 0xE2, CHR 0x80, CHR 0x81],
      [CHR 0xE2, CHR 0x80, CHR 0x82], [CHR 0xE2, CHR 0x80, CHR 0x83],
      [CHR 0xE2, CHR 0x80, CHR 0x84], [CHR 0xE2, CHR 0x80, CHR 0x85],
      [CHR 0xE2, CHR 0x80, CHR 0x86], [CHR 0xE2, CHR 0x80, CHR 0x87],
      [CHR 0xE2, CHR 0x80, CHR 0x88], [CHR 0xE2, CHR 0x80, CHR 0x89],
      [CHR 0xE2, CHR 0x80, CHR 0x8A], [CHR 0xE2, CHR 0x80, CHR 0xA8],
      [CHR 0xE2, CHR 0x80, CHR 0xA9], [CHR 0xE2, CHR 0x80, CHR 0xAF],
      [CHR 0xE2, CHR 0x81, CHR 0x9F], [CHR 0xE3, CHR 0x80, CHR 0x80]]"

definition leadingSpace :: "string \<Rightarrow> nat" where
  \<comment> \<open>the width of the white-space rune the string starts with, 0 if it starts with none\<close>
  "leadingSpace s =
     (case find (\<lambda>r. prefix r s) spaceRunes of None \<Rightarrow> 0 | Some r \<Rightarrow> length r)"

definition trailingSpace :: "string \<Rightarrow> nat" where
  \<comment> \<open>the width of the white-space rune the string ends with, 0 if it ends with none\<close>
  "trailingSpace s =
     (case find (\<lambda>r. suffix r s) spaceRunes of None \<Rightarrow> 0 | Some r \<Rightarrow> length r)"

function TrimLeftSpace :: "string \<Rightarrow> string" where
  "TrimLeftSpace s =
     (if leadingSpace s = 0 \<or> s = [] then s else TrimLeftSpace (drop (leadingSpace s) s))"
  by pat_completeness auto
termination
  by (relation "measure length") auto

function TrimRightSpace :: "string \<Rightarrow> string" where
  "TrimRightSpace s =
     (if trailingSpace s = 0 \<or> s = [] then s
      else TrimRightSpace (take (length s - trailingSpace s) s))"
  by pat_completeness auto
termination
  by (relation "measure length") auto

definition TrimSpace :: "string \<Rightarrow> string" where
  "TrimSpace s = TrimRightSpace (TrimLeftSpace s)"

fun Join :: "string list \<Rightarrow> string \<Rightarrow> string" where
  \<comment> \<open>\<open>strings.Join\<close>\<close>
  "Join [] sep = []"
| "Join [x] sep = x"
| "Join (x # y # ys) sep = x @ sep @ Join (y # ys) sep"

definition lookup :: "(string \<rightharpoonup> string) \<Rightarrow> string \<Rightarrow> string" where
  \<comment> \<open>\<open>m[k]\<close> on a \<open>map[string]string\<close>: the zero value \<open>""\<close> for a missing key\<close>
  "lookup m k = (case m k of None \<Rightarrow> [] | Some v \<Rightarrow> v)"

section \<open>Errors, HTTP messages, cluster objects and the environment\<close>

text \<open>
  A Go \<open>error\<close> is a value. \<open>Lib\<close> is an error made by a library or by the peer (its
  message is opaque); the other constructors are the errors the program builds itself
  with \<open>fmt.Errorf\<close>, holding the values that are formatted into the message.
  \<open>Panicked\<close> stands for a run-time panic of the process.
\<close>

datatype error =
    Lib string
  | Panicked panic
  | HeadFailed string error            \<comment> \<open>\<open>"HEAD %s: %w"\<close>\<close>
  | FetchingBearerToken error          \<comment> \<open>\<open>"fetching bearer token: %w"\<close>\<close>
  | HeadAuthedFailed string error      \<comment> \<open>\<open>"HEAD (authed) %s: %w"\<close>\<close>
  | UnexpectedStatus int string        \<comment> \<open>\<open>"unexpected status %d from %s"\<close>\<close>
  | NoDigestHeader string              \<comment> \<open>\<open>"no Docker-Content-Digest header in response from %s"\<close>\<close>
  | NoRealm string                     \<comment> \<open>\<open>"no realm in Www-Authenticate header: %s"\<close>\<close>
  | ParsingTokenResponse error         \<comment> \<open>\<open>"parsing token response: %w"\<close>\<close>
  | NoToken string                     \<comment> \<open>\<open>"no token in response from %s"\<close>\<close>
  | ListingDeployments error           \<comment> \<open>\<open>"listing deployments: %w"\<close>\<close>

datatype authorization =
    Basic string string   \<comment> \<open>\<open>req.SetBasicAuth(user, password)\<close>\<close>
  | Bearer string         \<comment> \<open>\<open>req.Header.Set("Authorization", "Bearer "+token)\<close>\<close>

record request =
  Method :: string
  URL :: string
  Accept :: "string option"
  Authorization :: "authorization option"

record response =
  StatusCode :: int
  Header_Get :: "string \<Rightarrow> string"   \<comment> \<open>\<open>resp.Header.Get\<close>: \<open>""\<close> for an absent header\<close>
  Body :: "error + string"             \<comment> \<open>what \<open>io.ReadAll(resp.Body)\<close> returns\<close>

record Container =
  Container_Name :: string
  Image :: string
  ImagePullPolicy :: string

record ContainerStatus =
  ImageID :: string

record Pod =
  Pod_Namespace :: string
  Pod_Name :: string
  Containers :: "Container list"        \<comment> \<open>\<open>pod.Spec.Containers\<close>\<close>
  ImagePullSecrets :: "string list"     \<comment> \<open>\<open>pod.Spec.ImagePullSecrets\<close>, the names\<close>
  Phase :: string                       \<comment> \<open>\<open>pod.Status.Phase\<close>\<close>
  ContainerStatuses :: "ContainerStatus list"   \<comment> \<open>\<open>pod.Status.ContainerStatuses\<close>\<close>

record Secret =
  Secret_Type :: string
  Data :: "string \<rightharpoonup> string"

record 'sel Deployment =
  Deployment_Namespace :: string
  Deployment_Name :: string
  Annotations :: "string \<rightharpoonup> string"
  Selector :: 'sel

definition PullAlways :: string where "PullAlways = ''Always''"
definition PodRunning :: string where "PodRunning = ''Running''"
definition SecretTypeDockerConfigJson :: string where
  "SecretTypeDockerConfigJson = ''kubernetes.io/dockerconfigjson''"
definition DockerConfigJsonKey :: string where "DockerConfigJsonKey = ''.dockerconfigjson''"
definition annotationKey :: string where "annotationKey = ''kube-restarter.io/enabled''"
definition StatusUnauthorized :: int where "StatusUnauthorized = 401"
definition StatusOK :: int where "StatusOK = 200"
definition MethodHead :: string where "MethodHead = ''HEAD''"
definition MethodGet :: string where "MethodGet = ''GET''"

text \<open>
  The lines the program writes with \<open>log.Printf\<close>, each with the values it formats, and
  the events of a run: an HTTP request sent, a call of the cluster API, a log line. A run's
  history is the list of its events, oldest first.
\<close>

datatype logline =
    CheckingDeployment string string
  | ErrorParsingSelector error
  | ErrorListingPods error
  | DeletingStalePod string string
  | ErrorDeletingPod string error
  | ErrorFetchingRemoteDigest string error
  | NoRunningDigest string
  | ContainerStale string string string
  | ContainerUpToDate string string
  | WarnPullSecret string error

datatype event =
    HttpDo request
  | ListDeployments string
  | ListPods string string
  | GetSecret string string
  | DeletePod string string
  | Log logline

text \<open>
  The environment: everything the program calls and does not define. The network and
  the cluster answer a call as a function of the history so far and of the call, so
  that the same request may be answered differently at different moments of a run; a
  statement for every environment holds for every behaviour of the registry, of the
  token server and of the cluster. \<open>url_Parse\<close> is the only way
  \<open>http.NewRequestWithContext\<close> fails here (the method is a constant, the context is not
  nil). \<open>Unmarshal_config\<close> decodes a \<open>dockerConfigJSON\<close> and gives the entries of
  \<open>Auths\<close> as (host, \<open>Auth\<close>) pairs in the order in which \<open>range\<close> visits the map;
  \<open>Unmarshal_token\<close> gives the fields \<open>Token\<close> and \<open>AccessToken\<close>.
\<close>

record 'sel env =
  Do :: "event list \<Rightarrow> request \<Rightarrow> error + response"
  url_Parse :: "string \<Rightarrow> error option"
  Unmarshal_config :: "string \<Rightarrow> error + (string \<times> string) list"
  Unmarshal_token :: "string \<Rightarrow> error + (string \<times> string)"
  DecodeString :: "string \<Rightarrow> error + string"
  LabelSelectorAsSelector :: "'sel \<Rightarrow> error + string"
  Deployments_List :: "event list \<Rightarrow> string \<Rightarrow> error + 'sel Deployment list"
  Pods_List :: "event list \<Rightarrow> string \<Rightarrow> string \<Rightarrow> error + Pod list"
  Secrets_Get :: "event list \<Rightarrow> string \<Rightarrow> string \<Rightarrow> error + Secret"
  Pods_Delete :: "event list \<Rightarrow> string \<Rightarrow> string \<Rightarrow> error option"

definition NewRequest :: "'sel env \<Rightarrow> string \<Rightarrow> string \<Rightarrow> error + request" where
  "NewRequest env method url =
     (case url_Parse env url of
        Some err \<Rightarrow> Inl err
      | None \<Rightarrow> Inr \<lparr>Method = method, URL = url, Accept = None, Authorization = None\<rparr>)"

section \<open>Image references (package registry)\<close>

definition parseImageRef :: "string \<Rightarrow> panic + (string \<times> string \<times> string)" where
  "parseImageRef img =
     (let tag = ''latest'';
          ref = img;
          atIdx = Index ref ''@''
      in andThen (if atIdx \<noteq> - 1 then slice_to ref atIdx else Inr ref) (\<lambda>ref.
         let colonIdx = LastIndex ref '':''
         in andThen
              (if colonIdx \<noteq> - 1
               then andThen (slice_from ref (colonIdx + 1)) (\<lambda>candidate.
                      if \<not> Contains candidate ''/''
                      then andThen (slice_to ref colonIdx) (\<lambda>ref'. Inr (candidate, ref'))
                      else Inr (tag, ref))
               else Inr (tag, ref))
              (\<lambda>(tag, ref).
                 let parts = SplitN ref CHR ''/'' 2
                 in if length parts = 1
                    then andThen (index_at parts 0) (\<lambda>p0.
                           Inr (''registry-1.docker.io'', ''library/'' @ p0, tag))
                    else andThen (index_at parts 0) (\<lambda>first.
                           if Contains first ''.'' \<or> Contains first '':'' \<or> first = ''localhost''
                           then andThen (index_at parts 1) (\<lambda>p1. Inr (first, p1, tag))
                           else Inr (''registry-1.docker.io'', ref, tag)))))"

section \<open>Registry client (package registry)\<close>

fun setAuth_entries ::
  "'sel env \<Rightarrow> request \<Rightarrow> string \<Rightarrow> (string \<times> string) list \<Rightarrow> request option" where
  \<comment> \<open>the loop over \<open>cfg.Auths\<close>: \<open>Some\<close> is the \<open>return\<close> after \<open>SetBasicAuth\<close>\<close>
  "setAuth_entries env req registryHost [] = None"
| "setAuth_entries env req registryHost ((host, auth) # rest) =
     (if Contains host registryHost \<and> auth \<noteq> []
      then (case DecodeString env auth of
              Inl err \<Rightarrow> setAuth_entries env req registryHost rest
            | Inr decoded \<Rightarrow>
                (let parts = SplitN decoded CHR '':'' 2
                 in if length parts = 2
                    then Some (req\<lparr>Authorization := Some (Basic (parts ! 0) (parts ! 1))\<rparr>)
                    else setAuth_entries env req registryHost rest))
      else setAuth_entries env req registryHost rest)"

fun setAuth :: "'sel env \<Rightarrow> request \<Rightarrow> string \<Rightarrow> Secret list \<Rightarrow> request" where
  "setAuth env req registryHost [] = req"
| "setAuth env req registryHost (secret # rest) =
     (if Secret_Type secret \<noteq> SecretTypeDockerConfigJson
      then setAuth env req registryHost rest
      else (case Data secret DockerConfigJsonKey of
              None \<Rightarrow> setAuth env req registryHost rest
            | Some data \<Rightarrow>
                (case Unmarshal_config env data of
                   Inl err \<Rightarrow> setAuth env req registryHost rest
                 | Inr auths \<Rightarrow>
                     (case setAuth_entries env req registryHost auths of
                        Some req' \<Rightarrow> req'
                      | None \<Rightarrow> setAuth env req registryHost rest))))"

definition addPart :: "string \<Rightarrow> (string \<rightharpoonup> string) \<Rightarrow> (string \<rightharpoonup> string)" where
  \<comment> \<open>the body of the loop of \<open>parseWWWAuth\<close>\<close>
  \<open>addPart part result =
     (let part = TrimSpace part;
          kv = SplitN part CHR ''='' 2
      in if length kv = 2 then result(kv ! 0 \<mapsto> Trim (kv ! 1) ''"'') else result)\<close>

definition parseWWWAuth :: "string \<Rightarrow> (string \<rightharpoonup> string)" where
  "parseWWWAuth header =
     (let header = TrimPrefix header ''Bearer '';
          header = TrimPrefix header ''bearer ''
      in fold addPart (Split header CHR '','') Map.empty)"

definition tokenURL :: "(string \<rightharpoonup> string) \<Rightarrow> string" where
  \<comment> \<open>the URL \<open>fetchBearerToken\<close> builds from the parsed challenge\<close>
  "tokenURL params =
     (let realm = lookup params ''realm'';
          tokenURL = realm;
          sep = ''?'';
          service = lookup params ''service'';
          (tokenURL, sep) =
            (if service \<noteq> [] then (tokenURL @ sep @ ''service='' @ service, ''&'')
             else (tokenURL, sep));
          scope = lookup params ''scope''
      in if scope \<noteq> [] then tokenURL @ sep @ ''scope='' @ scope else tokenURL)"

definition fetchBearerToken ::
  "'sel env \<Rightarrow> string \<Rightarrow> string \<Rightarrow> Secret list \<Rightarrow> event list \<Rightarrow> (error + string) \<times> event list"
  where
  "fetchBearerToken env wwwAuth registryHost pullSecrets h =
     (let params = parseWWWAuth wwwAuth;
          realm = lookup params ''realm''
      in if realm = [] then (Inl (NoRealm wwwAuth), h)
         else (case NewRequest env MethodGet (tokenURL params) of
                 Inl err \<Rightarrow> (Inl err, h)
               | Inr req \<Rightarrow>
                   (let req = setAuth env req registryHost pullSecrets;
                        h' = h @ [HttpDo req]
                    in case Do env h req of
                         Inl err \<Rightarrow> (Inl err, h')
                       | Inr resp \<Rightarrow>
                           (case Body resp of
                              Inl err \<Rightarrow> (Inl err, h')
                            | Inr body \<Rightarrow>
                                (case Unmarshal_token env body of
                                   Inl err \<Rightarrow> (Inl (ParsingTokenResponse err), h')
                                 | Inr (token, accessToken) \<Rightarrow>
                                     if token \<noteq> [] then (Inr token, h')
                                     else if accessToken \<noteq> [] then (Inr accessToken, h')
                                     else (Inl (NoToken (tokenURL params)), h'))))))"

definition acceptTypes :: string where
  "acceptTypes =
     Join [''application/vnd.docker.distribution.manifest.v2+json'',
           ''application/vnd.oci.image.manifest.v1+json'',
           ''application/vnd.oci.image.index.v1+json'',
           ''application/vnd.docker.distribution.manifest.list.v2+json''] '', ''"

definition digestOf :: "string \<Rightarrow> response \<Rightarrow> error + string" where
  \<comment> \<open>the end of \<open>GetRemoteDigest\<close>, reached with the first response or with the retry's\<close>
  "digestOf url resp =
     (if StatusCode resp \<noteq> StatusOK then Inl (UnexpectedStatus (StatusCode resp) url)
      else (let digest = Header_Get resp ''Docker-Content-Digest''
            in if digest = [] then Inl (NoDigestHeader url) else Inr digest))"

definition GetRemoteDigest ::
  "'sel env \<Rightarrow> string \<Rightarrow> Secret list \<Rightarrow> event list \<Rightarrow> (error + string) \<times> event list" where
  "GetRemoteDigest env img pullSecrets h =
     (case parseImageRef img of
        Inl p \<Rightarrow> (Inl (Panicked p), h)
      | Inr (reg, repo, tag) \<Rightarrow>
          (let url = ''https://'' @ reg @ ''/v2/'' @ repo @ ''/manifests/'' @ tag
           in case NewRequest env MethodHead url of
                Inl err \<Rightarrow> (Inl err, h)
              | Inr req \<Rightarrow>
                  (let req = setAuth env (req\<lparr>Accept := Some acceptTypes\<rparr>) reg pullSecrets;
                       h1 = h @ [HttpDo req]
                   in case Do env h req of
                        Inl err \<Rightarrow> (Inl (HeadFailed url err), h1)
                      | Inr resp \<Rightarrow>
                          if StatusCode resp = StatusUnauthorized
                          then (case fetchBearerToken env (Header_Get resp ''Www-Authenticate'')
                                       reg pullSecrets h1 of
                                  (Inl err, h2) \<Rightarrow> (Inl (FetchingBearerToken err), h2)
                                | (Inr token, h2) \<Rightarrow>
                                    \<comment> \<open>the request is built again from the same method and
                                        URL, which were accepted above\<close>
                                    (let req = \<lparr>Method = MethodHead, URL = url,
                                                Accept = Some acceptTypes,
                                                Authorization = Some (Bearer token)\<rparr>;
                                         h3 = h2 @ [HttpDo req]
                                     in case Do env h2 req of
                                          Inl err \<Rightarrow> (Inl (HeadAuthedFailed url err), h3)
                                        | Inr resp \<Rightarrow> (digestOf url resp, h3)))
                          else (digestOf url resp, h1))))"

section \<open>Staleness check and reconciliation (package controller)\<close>

definition isLatestTag :: "string \<Rightarrow> bool" where
  "isLatestTag img =
     (if Contains img ''@'' then False
      else (let parts = Split img CHR '':''
            in if length parts = 1 then True
               else parts ! (length parts - 1) = ''latest''))"

definition extractDigest :: "string \<Rightarrow> string" where
  "extractDigest imageID =
     (let idx = Index imageID ''sha256:''
      in if idx \<noteq> - 1 then drop (nat idx) imageID else [])"

definition short :: "string \<Rightarrow> string" where
  "short digest = (if length digest > 19 then take 19 digest @ ''...'' else digest)"

fun shouldDeletePod_loop ::
  "'sel env \<Rightarrow> Pod \<Rightarrow> Secret list \<Rightarrow> nat \<Rightarrow> Container list \<Rightarrow> event list \<Rightarrow> bool \<times> event list"
  where
  \<comment> \<open>the loop of \<open>shouldDeletePod\<close> from index \<open>i\<close> on, over the containers left\<close>
  "shouldDeletePod_loop env pod pullSecrets i [] h = (False, h)"
| "shouldDeletePod_loop env pod pullSecrets i (container # rest) h =
     (if ImagePullPolicy container \<noteq> PullAlways
      then shouldDeletePod_loop env pod pullSecrets (i + 1) rest h
      else if \<not> isLatestTag (Image container)
      then shouldDeletePod_loop env pod pullSecrets (i + 1) rest h
      else (case GetRemoteDigest env (Image container) pullSecrets h of
              (Inl err, h1) \<Rightarrow>
                shouldDeletePod_loop env pod pullSecrets (i + 1) rest
                  (h1 @ [Log (ErrorFetchingRemoteDigest (Image container) err)])
            | (Inr remoteDigest, h1) \<Rightarrow>
                if i \<ge> length (ContainerStatuses pod)
                then shouldDeletePod_loop env pod pullSecrets (i + 1) rest h1
                else (let runningDigest = extractDigest (ImageID (ContainerStatuses pod ! i))
                      in if runningDigest = []
                         then shouldDeletePod_loop env pod pullSecrets (i + 1) rest
                                (h1 @ [Log (NoRunningDigest (Container_Name container))])
                         else if remoteDigest \<noteq> runningDigest
                         then (True, h1 @ [Log (ContainerStale (Container_Name container)
                                                  (short runningDigest) (short remoteDigest))])
                         else shouldDeletePod_loop env pod pullSecrets (i + 1) rest
                                (h1 @ [Log (ContainerUpToDate (Container_Name container)
                                              (short runningDigest))]))))"

definition shouldDeletePod ::
  "'sel env \<Rightarrow> Pod \<Rightarrow> Secret list \<Rightarrow> event list \<Rightarrow> bool \<times> event list" where
  "shouldDeletePod env pod pullSecrets h =
     shouldDeletePod_loop env pod pullSecrets 0 (Containers pod) h"

fun gatherPullSecrets_loop ::
  "'sel env \<Rightarrow> Pod \<Rightarrow> string list \<Rightarrow> Secret list \<Rightarrow> event list \<Rightarrow> Secret list \<times> event list"
  where
  "gatherPullSecrets_loop env pod [] secrets h = (secrets, h)"
| "gatherPullSecrets_loop env pod (ref # refs) secrets h =
     (case Secrets_Get env h (Pod_Namespace pod) ref of
        Inl err \<Rightarrow>
          gatherPullSecrets_loop env pod refs secrets
            (h @ [GetSecret (Pod_Namespace pod) ref, Log (WarnPullSecret ref err)])
      | Inr secret \<Rightarrow>
          gatherPullSecrets_loop env pod refs (secrets @ [secret])
            (h @ [GetSecret (Pod_Namespace pod) ref]))"

definition gatherPullSecrets :: "'sel env \<Rightarrow> Pod \<Rightarrow> event list \<Rightarrow> Secret list \<times> event list"
  where
  "gatherPullSecrets env pod h = gatherPullSecrets_loop env pod (ImagePullSecrets pod) [] h"

definition reconcilePod :: "'sel env \<Rightarrow> Secret list \<Rightarrow> Pod \<Rightarrow> event list \<Rightarrow> event list" where
  \<comment> \<open>the body of the loop of \<open>Reconcile\<close> over \<open>pods.Items\<close>\<close>
  "reconcilePod env pullSecrets pod h =
     (if Phase pod \<noteq> PodRunning then h
      else (case shouldDeletePod env pod pullSecrets h of
              (True, h1) \<Rightarrow>
                (let h2 = h1 @ [Log (DeletingStalePod (Pod_Namespace pod) (Pod_Name pod))];
                     h3 = h2 @ [DeletePod (Pod_Namespace pod) (Pod_Name pod)]
                 in case Pods_Delete env h2 (Pod_Namespace pod) (Pod_Name pod) of
                      Some err \<Rightarrow> h3 @ [Log (ErrorDeletingPod (Pod_Name pod) err)]
                    | None \<Rightarrow> h3)
            | (False, h1) \<Rightarrow> h1))"

definition reconcileDeployment :: "'sel env \<Rightarrow> 'sel Deployment \<Rightarrow> event list \<Rightarrow> event list"
  where
  \<comment> \<open>the body of the loop of \<open>Reconcile\<close> over \<open>deployments.Items\<close>\<close>
  "reconcileDeployment env deploy h =
     (if lookup (Annotations deploy) annotationKey \<noteq> ''true'' then h
      else (let h0 = h @ [Log (CheckingDeployment (Deployment_Namespace deploy)
                                 (Deployment_Name deploy))]
            in case LabelSelectorAsSelector env (Selector deploy) of
                 Inl err \<Rightarrow> h0 @ [Log (ErrorParsingSelector err)]
               | Inr selector \<Rightarrow>
                   (let h1 = h0 @ [ListPods (Deployment_Namespace deploy) selector]
                    in case Pods_List env h0 (Deployment_Namespace deploy) selector of
                         Inl err \<Rightarrow> h1 @ [Log (ErrorListingPods err)]
                       | Inr pods \<Rightarrow>
                           (let (pullSecrets, h2) =
                                  (if length pods > 0 then gatherPullSecrets env (pods ! 0) h1
                                   else ([], h1))
                            in fold (reconcilePod env pullSecrets) pods h2))))"

definition Reconcile :: "'sel env \<Rightarrow> string \<Rightarrow> event list \<Rightarrow> error option \<times> event list" where
  "Reconcile env namespace h =
     (let h0 = h @ [ListDeployments namespace]
      in case Deployments_List env h namespace of
           Inl err \<Rightarrow> (Some (ListingDeployments err), h0)
         | Inr deployments \<Rightarrow> (None, fold (reconcileDeployment env) deployments h0))"

section \<open>Notions used in the statements\<close>

text \<open>
  The tag and the name that \<open>parseImageRef\<close> reads off a reference \<open>r\<close> from which a
  digest suffix has been removed: with \<open>candidate\<close> the text after the last colon of \<open>r\<close>,
  the tag is \<open>candidate\<close> and the name what precedes that colon when \<open>r\<close> has a colon and
  \<open>candidate\<close> has no slash; otherwise the tag is \<open>latest\<close> and the name is \<open>r\<close>.
\<close>

definition tagOf :: "string \<Rightarrow> string" where
  "tagOf r =
     (let candidate = rev (takeWhile (\<lambda>x. x \<noteq> CHR '':'') (rev r))
      in if CHR '':'' \<in> set r \<and> CHR ''/'' \<notin> set candidate then candidate else ''latest'')"

definition nameOf :: "string \<Rightarrow> string" where
  "nameOf r =
     (let candidate = rev (takeWhile (\<lambda>x. x \<noteq> CHR '':'') (rev r))
      in if CHR '':'' \<in> set r \<and> CHR ''/'' \<notin> set candidate
         then take (length r - length candidate - 1) r else r)"

text \<open>
  Credential resolution as the specification words it. The entries considered are those
  of the secrets of the docker-config-json type whose payload decodes, in order. An entry
  yields a credential when its host key contains the registry host, its \<open>auth\<close> value is
  not empty and base64-decodes, and the decoded text has a colon: the user is the text
  before the first colon and the password the text after it. The credential resolved is
  the first one that the entries yield.
\<close>

definition authEntries :: "'sel env \<Rightarrow> Secret \<Rightarrow> (string \<times> string) list" where
  "authEntries env secret =
     (if Secret_Type secret = SecretTypeDockerConfigJson
      then (case Data secret DockerConfigJsonKey of
              None \<Rightarrow> []
            | Some payload \<Rightarrow>
                (case Unmarshal_config env payload of Inl err \<Rightarrow> [] | Inr auths \<Rightarrow> auths))
      else [])"

definition credentialOf ::
  "'sel env \<Rightarrow> string \<Rightarrow> string \<times> string \<Rightarrow> (string \<times> string) option" where
  "credentialOf env registryHost entry =
     (case entry of (host, auth) \<Rightarrow>
        if Contains host registryHost \<and> auth \<noteq> []
        then (case DecodeString env auth of
                Inl err \<Rightarrow> None
              | Inr decoded \<Rightarrow>
                  if CHR '':'' \<in> set decoded
                  then Some (takeWhile (\<lambda>c. c \<noteq> CHR '':'') decoded,
                             tl (dropWhile (\<lambda>c. c \<noteq> CHR '':'') decoded))
                  else None)
        else None)"

definition resolveCredential ::
  "'sel env \<Rightarrow> string \<Rightarrow> Secret list \<Rightarrow> (string \<times> string) option" where
  "resolveCredential env registryHost secrets =
     (case List.map_filter (credentialOf env registryHost)
             (concat (map (authEntries env) secrets)) of
        [] \<Rightarrow> None
      | credential # others \<Rightarrow> Some credential)"

text \<open>The \<open>HEAD\<close> requests among a list of events, in order.\<close>

definition heads :: "event list \<Rightarrow> request list" where
  "heads evs =
     List.map_filter
       (\<lambda>ev. case ev of
               HttpDo req \<Rightarrow> if Method req = MethodHead then Some req else None
             | _ \<Rightarrow> None)
       evs"

text \<open>
  An event of the staleness check: a request sent or a log line, never a call of the
  cluster API.
\<close>

definition quiet :: "event \<Rightarrow> bool" where
  "quiet ev = (case ev of HttpDo req \<Rightarrow> True | Log l \<Rightarrow> True | _ \<Rightarrow> False)"

text \<open>
  A confirmed digest mismatch of the container \<open>c\<close> at index \<open>i\<close> of the pod, when the
  lookup is made in the history \<open>h\<close>: the pull policy is always-pull, the image passes
  the latest-or-untagged check, the remote lookup succeeds, the index is within the
  container statuses, and the running digest extracted from the status's image id is not
  empty and differs, as a string, from the remote digest.
\<close>

definition staleAt ::
  "'sel env \<Rightarrow> Pod \<Rightarrow> Secret list \<Rightarrow> nat \<Rightarrow> Container \<Rightarrow> event list \<Rightarrow> bool" where
  "staleAt env pod pullSecrets i c h =
     (ImagePullPolicy c = PullAlways \<and> isLatestTag (Image c) \<and>
      (case fst (GetRemoteDigest env (Image c) pullSecrets h) of
         Inl err \<Rightarrow> False
       | Inr remoteDigest \<Rightarrow>
           i < length (ContainerStatuses pod) \<and>
           extractDigest (ImageID (ContainerStatuses pod ! i)) \<noteq> [] \<and>
           remoteDigest \<noteq> extractDigest (ImageID (ContainerStatuses pod ! i))))"

section \<open>A cluster and a registry for the examples\<close>

text \<open>
  An environment for the examples. Its registry demands a bearer token: a \<open>HEAD\<close>
  request without the token \<open>t0\<close> gets a 401 with a challenge, one with it gets a 200 and
  the digest \<open>sha256:bbb\<close>, and the token server hands out \<open>t0\<close>. Its cluster lists the
  given deployments and, for a selector, the given pods; it fails to list the pods of the
  selector \<open>app=down\<close>, has no secrets and refuses every deletion. A selector is a
  string, and the empty one does not convert.
\<close>

definition demoResponse :: "int \<Rightarrow> (string \<times> string) list \<Rightarrow> string \<Rightarrow> response" where
  "demoResponse code headers body =
     \<lparr>StatusCode = code,
      Header_Get = (\<lambda>k. case map_of headers k of None \<Rightarrow> [] | Some v \<Rightarrow> v),
      Body = Inr body\<rparr>"

definition demoNet :: "event list \<Rightarrow> request \<Rightarrow> error + response" where
  \<open>demoNet h req =
     (if Method req = MethodGet then Inr (demoResponse 200 [] ''{"token":"t0"}'')
      else if Authorization req = Some (Bearer ''t0'')
      then Inr (demoResponse 200 [(''Docker-Content-Digest'', ''sha256:bbb'')] [])
      else Inr (demoResponse 401
                  [(''Www-Authenticate'',
                    ''Bearer realm="https://auth.x/token",service="registry.x"'')] []))\<close>

definition demoEnv :: "string Deployment list \<Rightarrow> (string \<Rightarrow> Pod list) \<Rightarrow> string env" where
  \<open>demoEnv deployments podsOf =
     \<lparr>Do = demoNet,
      url_Parse = (\<lambda>url. None),
      Unmarshal_config = (\<lambda>payload. Inl (Lib ''unexpected end of JSON input'')),
      Unmarshal_token =
        (\<lambda>body. if body = ''{"token":"t0"}'' then Inr (''t0'', [])
                else Inl (Lib ''invalid character'')),
      DecodeString = (\<lambda>s. Inl (Lib ''illegal base64 data'')),
      LabelSelectorAsSelector =
        (\<lambda>sel. if sel = [] then Inl (Lib ''invalid selector'') else Inr sel),
      Deployments_List = (\<lambda>h ns. Inr deployments),
      Pods_List =
        (\<lambda>h ns sel. if sel = ''app=down'' then Inl (Lib ''timeout'') else Inr (podsOf sel)),
      Secrets_Get = (\<lambda>h ns name. Inl (Lib ''not found'')),
      Pods_Delete = (\<lambda>h ns name. Some (Lib ''forbidden''))\<rparr>\<close>

text \<open>
  The pod of the examples: one container \<open>nginx:latest\<close> with the always-pull policy.
  The pod is given with its phase and with the image ids of its container statuses.
\<close>

definition demoPod :: "string \<Rightarrow> string \<Rightarrow> string list \<Rightarrow> Pod" where
  "demoPod name phase imageIDs =
     \<lparr>Pod_Namespace = ''default'', Pod_Name = name,
      Containers = [\<lparr>Container_Name = ''web'', Image = ''nginx:latest'',
                     ImagePullPolicy = PullAlways\<rparr>],
      ImagePullSecrets = [], Phase = phase,
      ContainerStatuses = map (\<lambda>imageID. \<lparr>ImageID = imageID\<rparr>) imageIDs\<rparr>"

text \<open>The deployments of the examples, each with its enrolment annotation and selector.\<close>

definition demoDeployment :: "string \<Rightarrow> string \<Rightarrow> string \<Rightarrow> string Deployment" where
  "demoDeployment name enabled selector =
     \<lparr>Deployment_Namespace = ''default'', Deployment_Name = name,
      Annotations = [annotationKey \<mapsto> enabled], Selector = selector\<rparr>"

definition demoCluster :: "string env" where
  "demoCluster =
     demoEnv
       [demoDeployment ''broken'' ''true'' [],
        demoDeployment ''down'' ''true'' ''app=down'',
        demoDeployment ''web'' ''true'' ''app=web'',
        demoDeployment ''other'' ''TRUE'' ''app=other'']
       (\<lambda>sel. [demoPod ''web-0'' PodRunning [''docker-pullable://nginx@sha256:aaa''],
                demoPod ''web-1'' PodRunning [''docker-pullable://nginx@sha256:aaa'']])"

text \<open>
  Pull secrets for the examples, and an environment that decodes them: a secret of
  another type, a docker-config-json secret whose JSON is cut short, and one whose
  \<open>auths\<close> hold an entry for another host, an entry whose \<open>auth\<close> is not base64, an entry
  whose decoded text has no colon, and an entry for \<open>user\<close> with the password \<open>pa:ss\<close>.
\<close>

definition credPayload :: string where
  \<open>credPayload =
     ''{"auths":{"docker.io":{"auth":"dTE6cDE="},"https://ghcr.io":{"auth":"%%%"},'' @
     ''"ghcr.io":{"auth":"bm9jb2xvbg=="},"ghcr.io:443":{"auth":"dXNlcjpwYTpzcw=="}}}''\<close>

definition credSecrets :: "Secret list" where
  \<open>credSecrets =
     [\<lparr>Secret_Type = ''Opaque'', Data = [DockerConfigJsonKey \<mapsto> credPayload]\<rparr>,
      \<lparr>Secret_Type = SecretTypeDockerConfigJson, Data = [DockerConfigJsonKey \<mapsto> ''{"auths":'']\<rparr>,
      \<lparr>Secret_Type = SecretTypeDockerConfigJson, Data = [DockerConfigJsonKey \<mapsto> credPayload]\<rparr>]\<close>

definition credEnv :: "string env" where
  \<open>credEnv =
     (demoEnv [] (\<lambda>sel. []))
       \<lparr>Unmarshal_config :=
          (\<lambda>payload.
             if payload = credPayload
             then Inr [(''docker.io'', ''dTE6cDE=''), (''https://ghcr.io'', ''%%%''),
                       (''ghcr.io'', ''bm9jb2xvbg==''), (''ghcr.io:443'', ''dXNlcjpwYTpzcw=='')]
             else Inl (Lib ''unexpected end of JSON input'')),
        DecodeString :=
          (\<lambda>s. if s = ''dTE6cDE='' then Inr ''u1:p1''
               else if s = ''bm9jb2xvbg=='' then Inr ''nocolon''
               else if s = ''dXNlcjpwYTpzcw=='' then Inr ''user:pa:ss''
               else Inl (Lib ''illegal base64 data''))\<rparr>\<close>

section \<open>Facts about the string functions\<close>

text \<open>
  Outside \<open>parseImageRef\<close> the model writes an index or slice expression of the source
  with \<open>!\<close> or \<open>drop\<close> where the source tests the length first (\<open>parts\<close> and \<open>kv\<close> of
  length 2, \<open>pods.Items[0]\<close>, \<open>ContainerStatuses[i]\<close>). The two that have no test are in
  range as well: \<open>Index\<close> returns \<open>-1\<close> or an offset within the string
  (\<open>Index_bounds\<close>, for \<open>imageID[idx:]\<close>), and \<open>Split\<close> never returns an empty list
  (\<open>Split_not_Nil\<close>, for \<open>parts[len(parts)-1]\<close>).
\<close>

lemma Index_bounds: "- 1 \<le> Index s substr \<and> Index s substr \<le> int (length s)"
  by (induction s) (auto simp: Let_def)

lemma Index_single:
  "Index s [c] = (if c \<in> set s then int (length (takeWhile (\<lambda>x. x \<noteq> c) s)) else - 1)"
  by (induction s) (auto simp: Let_def)

lemma takeWhile_absent: "c \<notin> set s \<Longrightarrow> takeWhile (\<lambda>x. x \<noteq> c) s = s"
  by (induction s) auto

lemma length_takeWhile_mem:
  "c \<in> set s \<Longrightarrow> length (takeWhile (\<lambda>x. x \<noteq> c) s) < length s"
  by (induction s) auto

lemma takeWhile_rev_snoc:
  "takeWhile (\<lambda>x. x \<noteq> c) (rev s @ [a]) =
     (if c \<in> set s then takeWhile (\<lambda>x. x \<noteq> c) (rev s)
      else if a = c then rev s else rev s @ [a])"
  by (auto simp: takeWhile_append)

lemma LastIndex_single:
  "LastIndex s [c] =
     (if c \<in> set s then int (length s) - 1 - int (length (takeWhile (\<lambda>x. x \<noteq> c) (rev s)))
      else - 1)"
proof (induction s)
  case Nil
  then show ?case by simp
next
  case (Cons a s)
  then show ?case
    using length_takeWhile_mem[of c "rev s"] by (auto simp: Let_def takeWhile_rev_snoc)
qed

lemma Contains_single: "Contains s [c] \<longleftrightarrow> c \<in> set s"
  by (simp add: Contains_def Index_single)

lemma Split_not_Nil: "Split s c \<noteq> []"
  by (induction s) (auto simp: Let_def)

lemma length_Split_one: "length (Split s c) = Suc 0 \<longleftrightarrow> c \<notin> set s"
  using Split_not_Nil[of _ c] by (induction s) (auto simp: Let_def)

lemma last_Split: "last (Split s c) = rev (takeWhile (\<lambda>x. x \<noteq> c) (rev s))"
proof (induction s)
  case Nil
  then show ?case by simp
next
  case (Cons a s)
  show ?case
  proof (cases "c \<in> set s")
    case True
    then have "length (Split s c) \<noteq> Suc 0" by (simp add: length_Split_one)
    then have "tl (Split s c) \<noteq> []" using Split_not_Nil[of s c] by (cases "Split s c") auto
    with Cons True Split_not_Nil[of s c] show ?thesis
      by (auto simp: Let_def last_tl takeWhile_rev_snoc)
  next
    case False
    then have "length (Split s c) = Suc 0" by (simp add: length_Split_one)
    then obtain p where p: "Split s c = [p]" by (cases "Split s c") auto 
    have "takeWhile (\<lambda>x. x \<noteq> c) (rev s) = rev s"
      using False by (simp add: takeWhile_absent)
    with p Cons False show ?thesis by (auto simp: Let_def takeWhile_rev_snoc)
  qed
qed

lemma SplitN_two:
  "SplitN s c 2 =
     (if c \<in> set s then [takeWhile (\<lambda>x. x \<noteq> c) s, tl (dropWhile (\<lambda>x. x \<noteq> c) s)] else [s])"
  by (induction s) (auto simp: numeral_2_eq_2 Let_def)



lemma andThen_Inr: "andThen (Inr x) f = f x"
  by (simp add: andThen_def)

lemma strip_digest:
  "(if Index img ''@'' \<noteq> - 1 then slice_to img (Index img ''@'') else Inr img) =
     Inr (takeWhile (\<lambda>x. x \<noteq> CHR ''@'') img)"
proof (cases "CHR ''@'' \<in> set img")
  case True
  have "take (length (takeWhile (\<lambda>x. x \<noteq> CHR ''@'') img)) img =
          takeWhile (\<lambda>x. x \<noteq> CHR ''@'') img"
    by (rule takeWhile_eq_take[symmetric])
  with True length_takeWhile_mem[of "CHR ''@''" img] show ?thesis
    by (simp add: Index_single slice_to_def)
next
  case False
  then show ?thesis by (simp add: Index_single takeWhile_absent)
qed

lemma drop_after_last:
  assumes "c \<in> set r"
  shows "drop (nat (int (length r) - 1 - int (length (takeWhile (\<lambda>x. x \<noteq> c) (rev r))) + 1)) r
          = rev (takeWhile (\<lambda>x. x \<noteq> c) (rev r))"
proof -
  let ?k = "length (takeWhile (\<lambda>x. x \<noteq> c) (rev r))"
  have k: "?k < length r" using assms length_takeWhile_mem[of c "rev r"] by simp
  then have "nat (int (length r) - 1 - int ?k + 1) = length r - ?k" by linarith
  moreover have "drop (length r - ?k) r = rev (take ?k (rev r))"
    by (simp add: rev_take)
  moreover have "take ?k (rev r) = takeWhile (\<lambda>x. x \<noteq> c) (rev r)"
    by (rule takeWhile_eq_take[symmetric])
  ultimately show ?thesis by simp
qed

lemma split_tag:
  "(if LastIndex r '':'' \<noteq> - 1
    then andThen (slice_from r (LastIndex r '':'' + 1)) (\<lambda>candidate.
           if \<not> Contains candidate ''/''
           then andThen (slice_to r (LastIndex r '':'')) (\<lambda>ref'. Inr (candidate, ref'))
           else Inr (''latest'', r))
    else Inr (''latest'', r)) = Inr (tagOf r, nameOf r)"
proof (cases "CHR '':'' \<in> set r")
  case False
  then show ?thesis by (simp add: LastIndex_single tagOf_def nameOf_def)
next
  case True
  let ?k = "length (takeWhile (\<lambda>x. x \<noteq> CHR '':'') (rev r))"
  have k: "?k < length r" using True length_takeWhile_mem[of "CHR '':''" "rev r"] by simp
  have li: "LastIndex r '':'' = int (length r) - 1 - int ?k"
    using True by (simp add: LastIndex_single)
  have sf: "slice_from r (LastIndex r '':'' + 1) = Inr (rev (takeWhile (\<lambda>x. x \<noteq> CHR '':'') (rev r)))"
    unfolding li using drop_after_last[OF True] k by (simp add: slice_from_def)
  have st: "slice_to r (LastIndex r '':'') = Inr (take (length r - ?k - 1) r)"
  proof -
    have "nat (int (length r) - 1 - int ?k) = length r - ?k - 1" using k by linarith
    then show ?thesis unfolding li using k by (simp add: slice_to_def)
  qed
  have ne: "LastIndex r '':'' \<noteq> - 1" unfolding li using k by linarith
  show ?thesis
    using True by (simp add: ne sf st andThen_def Contains_single tagOf_def nameOf_def Let_def)
qed

lemma split_registry:
  "(let parts = SplitN r CHR ''/'' 2
    in if length parts = 1
       then andThen (index_at parts 0) (\<lambda>p0.
              Inr (''registry-1.docker.io'', ''library/'' @ p0, tag))
       else andThen (index_at parts 0) (\<lambda>first.
              if Contains first ''.'' \<or> Contains first '':'' \<or> first = ''localhost''
              then andThen (index_at parts 1) (\<lambda>p1. Inr (first, p1, tag))
              else Inr (''registry-1.docker.io'', r, tag))) =
   Inr (if CHR ''/'' \<notin> set r then (''registry-1.docker.io'', ''library/'' @ r, tag)
        else (let first = takeWhile (\<lambda>x. x \<noteq> CHR ''/'') r
              in if CHR ''.'' \<in> set first \<or> CHR '':'' \<in> set first \<or> first = ''localhost''
                 then (first, tl (dropWhile (\<lambda>x. x \<noteq> CHR ''/'') r), tag)
                 else (''registry-1.docker.io'', r, tag)))"
  by (simp add: SplitN_two andThen_def index_at_def Contains_single Let_def)

lemma parseImageRef_eq:
  "parseImageRef img =
     (let r0 = takeWhile (\<lambda>x. x \<noteq> CHR ''@'') img; tag = tagOf r0; r = nameOf r0
      in Inr (if CHR ''/'' \<notin> set r then (''registry-1.docker.io'', ''library/'' @ r, tag)
        else (let first = takeWhile (\<lambda>x. x \<noteq> CHR ''/'') r
              in if CHR ''.'' \<in> set first \<or> CHR '':'' \<in> set first \<or> first = ''localhost''
                 then (first, tl (dropWhile (\<lambda>x. x \<noteq> CHR ''/'') r), tag)
                 else (''registry-1.docker.io'', r, tag))))"
  unfolding parseImageRef_def Let_def strip_digest split_tag andThen_Inr prod.case
  by (rule split_registry[unfolded Let_def])


lemma last_index: "xs \<noteq> [] \<Longrightarrow> xs ! (length xs - 1) = last xs"
  by (simp add: last_conv_nth)

lemma Split_last_index:
  "Split s c ! (length (Split s c) - 1) = rev (takeWhile (\<lambda>x. x \<noteq> c) (rev s))"
  using last_index[OF Split_not_Nil, of s c] by (simp only: last_Split)

lemma length_Split_1: "length (Split s c) = 1 \<longleftrightarrow> c \<notin> set s"
  using length_Split_one[of s c] by simp

lemma isLatestTag_iff:
  "isLatestTag img \<longleftrightarrow>
     CHR ''@'' \<notin> set img \<and>
     (CHR '':'' \<notin> set img \<or> rev (takeWhile (\<lambda>x. x \<noteq> CHR '':'') (rev img)) = ''latest'')"
  unfolding isLatestTag_def Let_def Split_last_index length_Split_1 Contains_single
  by auto

lemma isLatestTag_tagOf:
  assumes "isLatestTag img"
  shows "tagOf (takeWhile (\<lambda>x. x \<noteq> CHR ''@'') img) = ''latest''"
proof -
  from assms[unfolded isLatestTag_iff] have at: "CHR ''@'' \<notin> set img"
    and c: "CHR '':'' \<notin> set img \<or> rev (takeWhile (\<lambda>x. x \<noteq> CHR '':'') (rev img)) = ''latest''"
    by blast+
  from at have r: "takeWhile (\<lambda>x. x \<noteq> CHR ''@'') img = img" by (rule takeWhile_absent)
  from c show ?thesis unfolding r tagOf_def Let_def by auto
qed

lemma parseImageRef_tagOf:
  "\<exists>reg repo. parseImageRef img = Inr (reg, repo, tagOf (takeWhile (\<lambda>x. x \<noteq> CHR ''@'') img))"
  by (auto simp: parseImageRef_eq Let_def)

section \<open>Image reference parsing\<close>

text \<open>
  C3. \<open>parseImageRef\<close> maps \<open>nginx\<close>, \<open>nginx:1.25\<close>, \<open>myuser/myimage\<close>,
  \<open>ghcr.io/org/app:v2\<close> and \<open>localhost:5000/app\<close> to (registry-1.docker.io,
  library/nginx, latest), (registry-1.docker.io, library/nginx, 1.25),
  (registry-1.docker.io, myuser/myimage, latest), (ghcr.io, org/app, v2) and
  (localhost:5000, app, latest); the tag of the last one is not \<open>5000/app\<close>.
\<close>

theorem parseImageRef_examples:
  "parseImageRef ''nginx'' = Inr (''registry-1.docker.io'', ''library/nginx'', ''latest'') \<and>
   parseImageRef ''nginx:1.25'' = Inr (''registry-1.docker.io'', ''library/nginx'', ''1.25'') \<and>
   parseImageRef ''myuser/myimage'' =
     Inr (''registry-1.docker.io'', ''myuser/myimage'', ''latest'') \<and>
   parseImageRef ''ghcr.io/org/app:v2'' = Inr (''ghcr.io'', ''org/app'', ''v2'') \<and>
   parseImageRef ''localhost:5000/app'' = Inr (''localhost:5000'', ''app'', ''latest'') \<and>
   (\<forall>reg repo. parseImageRef ''localhost:5000/app'' \<noteq> Inr (reg, repo, ''5000/app''))"
proof -
  have "parseImageRef ''nginx'' = Inr (''registry-1.docker.io'', ''library/nginx'', ''latest'')"
    by code_simp
  moreover have
    "parseImageRef ''nginx:1.25'' = Inr (''registry-1.docker.io'', ''library/nginx'', ''1.25'')"
    by code_simp
  moreover have "parseImageRef ''myuser/myimage'' =
      Inr (''registry-1.docker.io'', ''myuser/myimage'', ''latest'')"
    by code_simp
  moreover have "parseImageRef ''ghcr.io/org/app:v2'' = Inr (''ghcr.io'', ''org/app'', ''v2'')"
    by code_simp
  moreover have port:
    "parseImageRef ''localhost:5000/app'' = Inr (''localhost:5000'', ''app'', ''latest'')"
    by code_simp
  moreover have
    "\<forall>reg repo. parseImageRef ''localhost:5000/app'' \<noteq> Inr (reg, repo, ''5000/app'')"
    by (simp add: port)
  ultimately show ?thesis by blast
qed

text \<open>
  C5. \<open>parseImageRef\<close> is total: on every input string no slice or index expression
  panics and a (registry, repository, tag) triple is returned, in particular on the empty
  string and on a string that is only a tag. The function takes and returns no history
  of events: it performs no I/O.
\<close>

theorem parseImageRef_total:
  "(\<exists>reg repo tag. parseImageRef img = Inr (reg, repo, tag)) \<and>
   parseImageRef [] = Inr (''registry-1.docker.io'', ''library/'', ''latest'') \<and>
   parseImageRef '':latest'' = Inr (''registry-1.docker.io'', ''library/'', ''latest'')"
proof -
  have "parseImageRef [] = Inr (''registry-1.docker.io'', ''library/'', ''latest'')"
    by code_simp
  moreover have
    "parseImageRef '':latest'' = Inr (''registry-1.docker.io'', ''library/'', ''latest'')"
    by code_simp
  moreover have "\<exists>reg repo tag. parseImageRef img = Inr (reg, repo, tag)"
    using parseImageRef_tagOf by blast
  ultimately show ?thesis by blast
qed

text \<open>
  C4, as the code has it. The claim that the tag is never empty fails: the text after
  the last colon is taken as the tag whenever it has no slash, also when it is empty.
\<close>

theorem parseImageRef_empty_tag:
  "parseImageRef ''nginx:'' = Inr (''registry-1.docker.io'', ''library/nginx'', [])"
  by code_simp

text \<open>
  C4, amended. \<open>parseImageRef\<close> returns on every input. Let \<open>r\<close> be the input up to its
  first \<open>@\<close> and \<open>candidate\<close> the text after the last colon of \<open>r\<close>. The tag returned is
  \<open>candidate\<close> when \<open>r\<close> has a colon and \<open>candidate\<close> has no slash, and \<open>latest\<close>
  otherwise. So the tag is \<open>latest\<close> whenever \<open>r\<close> has no colon or \<open>candidate\<close> contains
  a slash; the tag is empty exactly when \<open>r\<close> ends with a colon; and for every image
  accepted by \<open>isLatestTag\<close> the tag is \<open>latest\<close>. The loop of \<open>shouldDeletePod\<close>, the one
  caller of \<open>GetRemoteDigest\<close>, goes on to the next container with the history unchanged
  when \<open>isLatestTag\<close> rejects the container's image.
\<close>

theorem parseImageRef_tag:
  "(\<exists>reg repo tag. parseImageRef img = Inr (reg, repo, tag) \<and>
     (let r = takeWhile (\<lambda>x. x \<noteq> CHR ''@'') img;
          candidate = rev (takeWhile (\<lambda>x. x \<noteq> CHR '':'') (rev r))
      in tag = (if CHR '':'' \<in> set r \<and> CHR ''/'' \<notin> set candidate then candidate
                else ''latest'') \<and>
         (CHR '':'' \<notin> set r \<or> CHR ''/'' \<in> set candidate \<longrightarrow> tag = ''latest'') \<and>
         (tag = [] \<longleftrightarrow> r \<noteq> [] \<and> last r = CHR '':'') \<and>
         (isLatestTag img \<longrightarrow> tag = ''latest''))) \<and>
   (\<forall>env pod pullSecrets i c rest h.
      \<not> isLatestTag (Image c) \<longrightarrow>
      shouldDeletePod_loop env pod pullSecrets i (c # rest) h =
        shouldDeletePod_loop env pod pullSecrets (i + 1) rest h)"
proof -
  let ?r = "takeWhile (\<lambda>x. x \<noteq> CHR ''@'') img"
  let ?c = "rev (takeWhile (\<lambda>x. x \<noteq> CHR '':'') (rev ?r))"
  obtain reg repo where p: "parseImageRef img = Inr (reg, repo, tagOf ?r)"
    using parseImageRef_tagOf by blast
  have t: "tagOf ?r = (if CHR '':'' \<in> set ?r \<and> CHR ''/'' \<notin> set ?c then ?c else ''latest'')"
    by (simp add: tagOf_def Let_def)
  have e: "?c = [] \<longleftrightarrow> ?r \<noteq> [] \<and> last ?r = CHR '':''"
    if "CHR '':'' \<in> set ?r"
    using that by (cases ?r rule: rev_cases) auto
  have "tagOf ?r = [] \<longleftrightarrow> ?r \<noteq> [] \<and> last ?r = CHR '':''"
  proof (cases "CHR '':'' \<in> set ?r")
    case True
    with e show ?thesis by (auto simp: tagOf_def Let_def)
  next
    case False
    then have "?r \<noteq> [] \<longrightarrow> last ?r \<noteq> CHR '':''" using last_in_set by metis
    with False show ?thesis by (auto simp: tagOf_def Let_def)
  qed
  moreover have "CHR '':'' \<notin> set ?r \<or> CHR ''/'' \<in> set ?c \<longrightarrow> tagOf ?r = ''latest''"
    by (auto simp: tagOf_def Let_def)
  moreover have "isLatestTag img \<longrightarrow> tagOf ?r = ''latest''"
    using isLatestTag_tagOf by blast
  ultimately have 1: "\<exists>reg repo tag. parseImageRef img = Inr (reg, repo, tag) \<and>
     (let r = takeWhile (\<lambda>x. x \<noteq> CHR ''@'') img;
          candidate = rev (takeWhile (\<lambda>x. x \<noteq> CHR '':'') (rev r))
      in tag = (if CHR '':'' \<in> set r \<and> CHR ''/'' \<notin> set candidate then candidate
                else ''latest'') \<and>
         (CHR '':'' \<notin> set r \<or> CHR ''/'' \<in> set candidate \<longrightarrow> tag = ''latest'') \<and>
         (tag = [] \<longleftrightarrow> r \<noteq> [] \<and> last r = CHR '':'') \<and>
         (isLatestTag img \<longrightarrow> tag = ''latest''))"
    using p t unfolding Let_def by (intro exI[of _ reg] exI[of _ repo] exI[of _ "tagOf ?r"]) simp
  have 2: "\<forall>env pod pullSecrets i c rest h.
      \<not> isLatestTag (Image c) \<longrightarrow>
      shouldDeletePod_loop env pod pullSecrets i (c # rest) h =
        shouldDeletePod_loop env pod pullSecrets (i + 1) rest h"
    by simp
  from 1 2 show ?thesis ..
qed

theorem parseImageRef_tag_witness:
  "(\<exists>reg repo tag. parseImageRef ''nginx:latest'' = Inr (reg, repo, tag) \<and> tag = ''latest'') \<and>
   isLatestTag ''nginx:latest'' \<and>
   CHR ''/'' \<in> set (rev (takeWhile (\<lambda>x. x \<noteq> CHR '':'') (rev ''localhost:5000/app''))) \<and>
   (\<exists>reg repo. parseImageRef ''localhost:5000/app'' = Inr (reg, repo, ''latest'')) \<and>
   (\<exists>reg repo. parseImageRef ''redis:7'' = Inr (reg, repo, ''7'')) \<and>
   \<not> isLatestTag ''redis:7''"
proof -
  have l: "isLatestTag ''nginx:latest''" by code_simp
  have n: "\<not> isLatestTag ''redis:7''" by code_simp
  have s: "CHR ''/'' \<in> set (rev (takeWhile (\<lambda>x. x \<noteq> CHR '':'') (rev ''localhost:5000/app'')))"
    by simp
  from parseImageRef_tag[of "''nginx:latest''", THEN conjunct1] l
  have 1: "\<exists>reg repo tag. parseImageRef ''nginx:latest'' = Inr (reg, repo, tag) \<and> tag = ''latest''"
    by (auto simp: Let_def)
  from parseImageRef_tag[of "''localhost:5000/app''", THEN conjunct1] s
  have 2: "\<exists>reg repo. parseImageRef ''localhost:5000/app'' = Inr (reg, repo, ''latest'')"
    by (auto simp: Let_def)
  from parseImageRef_tag[of "''redis:7''", THEN conjunct1]
  have 3: "\<exists>reg repo. parseImageRef ''redis:7'' = Inr (reg, repo, ''7'')"
    by (auto simp: Let_def)
  from 1 2 3 l n s show ?thesis by blast
qed

section \<open>Applicability of a container\<close>

text \<open>
  C2, at the input where the code departs from it. The reference \<open>localhost:5000/app\<close>
  has no tag (\<open>parseImageRef\<close> gives it the tag \<open>latest\<close>), but \<open>isLatestTag\<close> compares
  the text after its last colon, \<open>5000/app\<close>, with \<open>latest\<close> and rejects it; a pod whose
  only container has this image and the always-pull policy is left alone with no event
  at all, so no registry request is sent for it.
\<close>

theorem isLatestTag_host_port:
  "\<not> isLatestTag ''localhost:5000/app'' \<and>
   parseImageRef ''localhost:5000/app'' = Inr (''localhost:5000'', ''app'', ''latest'') \<and>
   shouldDeletePod env
     \<lparr>Pod_Namespace = ''default'', Pod_Name = ''app-0'',
      Containers = [\<lparr>Container_Name = ''app'', Image = ''localhost:5000/app'',
                     ImagePullPolicy = PullAlways\<rparr>],
      ImagePullSecrets = [], Phase = PodRunning,
      ContainerStatuses = [\<lparr>ImageID = ''localhost:5000/app@sha256:aaa''\<rparr>]\<rparr> pullSecrets h =
     (False, h)"
proof -
  have l: "\<not> isLatestTag ''localhost:5000/app''" by code_simp
  have p: "parseImageRef ''localhost:5000/app'' = Inr (''localhost:5000'', ''app'', ''latest'')"
    by code_simp
  from l p show ?thesis by (simp add: shouldDeletePod_def)
qed

section \<open>The bearer challenge\<close>
























section \<open>Credentials from pull secrets\<close>

lemma setAuth_entries_eq:
  "setAuth_entries env req registryHost auths =
     (case List.map_filter (credentialOf env registryHost) auths of
        [] \<Rightarrow> None
      | (user, password) # others \<Rightarrow> Some (req\<lparr>Authorization := Some (Basic user password)\<rparr>))"
proof (induction auths)
  case Nil
  then show ?case by (simp add: map_filter_simps)
next
  case (Cons entry auths)
  obtain host auth where e: "entry = (host, auth)" by (cases entry)
  show ?case
    unfolding e using Cons
    by (auto simp: map_filter_simps credentialOf_def SplitN_two Let_def
             split: sum.splits list.splits)
qed

lemma map_filter_append: "List.map_filter f (xs @ ys) = List.map_filter f xs @ List.map_filter f ys"
  by (simp add: map_filter_def)

lemma setAuth_resolveCredential:
  "setAuth env req registryHost pullSecrets =
     (case resolveCredential env registryHost pullSecrets of
        None \<Rightarrow> req
      | Some (user, password) \<Rightarrow> req\<lparr>Authorization := Some (Basic user password)\<rparr>)"
proof (induction pullSecrets)
  case Nil
  then show ?case by (simp add: resolveCredential_def map_filter_simps)
next
  case (Cons secret rest)
  let ?here = "List.map_filter (credentialOf env registryHost) (authEntries env secret)"
  let ?later = "List.map_filter (credentialOf env registryHost) (concat (map (authEntries env) rest))"
  have r: "resolveCredential env registryHost (secret # rest) =
             (case ?here of [] \<Rightarrow> resolveCredential env registryHost rest
              | credential # others \<Rightarrow> Some credential)"
    by (simp add: resolveCredential_def map_filter_append split: list.splits)
  show ?case
  proof (cases "authEntries env secret = []")
    case True
    then have h: "?here = []" by (simp add: map_filter_simps)
    from True have "setAuth env req registryHost (secret # rest) = setAuth env req registryHost rest"
      by (auto simp: authEntries_def setAuth_entries_eq map_filter_simps
               split: if_splits option.splits sum.splits)
    with Cons r h show ?thesis by simp
  next
    case False
    then have u: "Secret_Type secret = SecretTypeDockerConfigJson"
      and "\<exists>payload. Data secret DockerConfigJsonKey = Some payload \<and>
             Unmarshal_config env payload = Inr (authEntries env secret)"
      by (auto simp: authEntries_def split: if_splits option.splits sum.splits)
    then obtain payload where p: "Data secret DockerConfigJsonKey = Some payload"
      and c: "Unmarshal_config env payload = Inr (authEntries env secret)" by blast
    have "setAuth env req registryHost (secret # rest) =
            (case setAuth_entries env req registryHost (authEntries env secret) of
               Some req' \<Rightarrow> req' | None \<Rightarrow> setAuth env req registryHost rest)"
      using u p c by simp
    with Cons r show ?thesis
      by (auto simp: setAuth_entries_eq split: list.splits)
  qed
qed

text \<open>
  C7. \<open>setAuth\<close> resolves the credential as specified: it looks only at secrets of the
  docker-config-json type, matches an entry when its host key contains the registry
  host, takes the first entry whose non-empty \<open>auth\<close> value base64-decodes and splits at
  its first colon into user and password, passes over a secret whose JSON does not decode
  and an entry whose base64 does not decode or has no colon, and leaves the request as it
  is, with no credential, when no entry yields one. "First" is in the order of the
  secrets and, within a secret, in the order in which \<open>range\<close> visits the map.
\<close>

theorem setAuth_resolves:
  "setAuth env req registryHost pullSecrets =
     (case resolveCredential env registryHost pullSecrets of
        None \<Rightarrow> req
      | Some (user, password) \<Rightarrow> req\<lparr>Authorization := Some (Basic user password)\<rparr>)"
  by (rule setAuth_resolveCredential)

theorem setAuth_resolves_witness:
  "resolveCredential credEnv ''ghcr.io'' credSecrets = Some (''user'', ''pa:ss'') \<and>
   setAuth credEnv
     \<lparr>Method = MethodHead, URL = ''https://ghcr.io/v2/org/app/manifests/latest'',
      Accept = None, Authorization = None\<rparr> ''ghcr.io'' credSecrets =
     \<lparr>Method = MethodHead, URL = ''https://ghcr.io/v2/org/app/manifests/latest'',
      Accept = None, Authorization = Some (Basic ''user'' ''pa:ss'')\<rparr> \<and>
   resolveCredential credEnv ''quay.io'' credSecrets = None \<and>
   setAuth credEnv
     \<lparr>Method = MethodHead, URL = ''https://quay.io/v2/org/app/manifests/latest'',
      Accept = None, Authorization = None\<rparr> ''quay.io'' credSecrets =
     \<lparr>Method = MethodHead, URL = ''https://quay.io/v2/org/app/manifests/latest'',
      Accept = None, Authorization = None\<rparr>"
proof -
  have g: "resolveCredential credEnv ''ghcr.io'' credSecrets = Some (''user'', ''pa:ss'')"
    by code_simp
  have q: "resolveCredential credEnv ''quay.io'' credSecrets = None"
    by code_simp
  from g q show ?thesis
    by (simp add: setAuth_resolves[of credEnv _ _ credSecrets])
qed

section \<open>The digest lookup\<close>

lemma setAuth_cases:
  "setAuth env req registryHost pullSecrets = req \<or>
   (\<exists>user password.
      setAuth env req registryHost pullSecrets = req\<lparr>Authorization := Some (Basic user password)\<rparr>)"
  by (auto simp: setAuth_resolveCredential split: option.splits prod.splits)

lemma setAuth_Method [simp]: "Method (setAuth env req registryHost pullSecrets) = Method req"
  using setAuth_cases[of env req registryHost pullSecrets] by auto

lemma setAuth_URL [simp]: "URL (setAuth env req registryHost pullSecrets) = URL req"
  using setAuth_cases[of env req registryHost pullSecrets] by auto

lemma setAuth_override [simp]:
  "(setAuth env req registryHost pullSecrets)\<lparr>Authorization := a\<rparr> = req\<lparr>Authorization := a\<rparr>"
  using setAuth_cases[of env req registryHost pullSecrets] by auto

lemma heads_simps [simp]:
  "heads [] = []"
  "heads (HttpDo req # evs) = (if Method req = MethodHead then req # heads evs else heads evs)"
  "heads (Log l # evs) = heads evs"
  "heads (evs @ evs') = heads evs @ heads evs'"
  by (simp_all add: heads_def map_filter_simps map_filter_append)

lemma fetchBearerToken_events:
  "\<exists>tok. snd (fetchBearerToken env wwwAuth registryHost pullSecrets h) = h @ tok \<and>
         heads tok = [] \<and> (\<forall>ev \<in> set tok. \<exists>req. ev = HttpDo req)"
  by (auto simp: fetchBearerToken_def NewRequest_def Let_def MethodGet_def MethodHead_def
           split: option.splits sum.splits prod.splits)

lemma digestOf_Inr:
  "digestOf url resp = Inr d \<longleftrightarrow>
     StatusCode resp = 200 \<and> Header_Get resp ''Docker-Content-Digest'' = d \<and> d \<noteq> []"
  by (auto simp: digestOf_def StatusOK_def Let_def)

lemma digestOf_status:
  "StatusCode resp \<noteq> 200 \<Longrightarrow> digestOf url resp = Inl (UnexpectedStatus (StatusCode resp) url)"
  by (simp add: digestOf_def StatusOK_def)

lemma GetRemoteDigest_unfold:
  assumes "parseImageRef img = Inr (reg, repo, tag)"
    and "url = ''https://'' @ reg @ ''/v2/'' @ repo @ ''/manifests/'' @ tag"
    and "url_Parse env url = None"
    and "req1 = setAuth env \<lparr>Method = MethodHead, URL = url, Accept = Some acceptTypes,
                             Authorization = None\<rparr> reg pullSecrets"
  shows "GetRemoteDigest env img pullSecrets h =
     (case Do env h req1 of
        Inl err \<Rightarrow> (Inl (HeadFailed url err), h @ [HttpDo req1])
      | Inr resp \<Rightarrow>
          if StatusCode resp = 401
          then (case fetchBearerToken env (Header_Get resp ''Www-Authenticate'') reg pullSecrets
                       (h @ [HttpDo req1]) of
                  (Inl err, h2) \<Rightarrow> (Inl (FetchingBearerToken err), h2)
                | (Inr token, h2) \<Rightarrow>
                    (case Do env h2 (req1\<lparr>Authorization := Some (Bearer token)\<rparr>) of
                       Inl err \<Rightarrow>
                         (Inl (HeadAuthedFailed url err),
                          h2 @ [HttpDo (req1\<lparr>Authorization := Some (Bearer token)\<rparr>)])
                     | Inr resp2 \<Rightarrow>
                         (digestOf url resp2,
                          h2 @ [HttpDo (req1\<lparr>Authorization := Some (Bearer token)\<rparr>)])))
          else (digestOf url resp, h @ [HttpDo req1]))"
proof -
  have req2: "req1\<lparr>Authorization := Some (Bearer token)\<rparr> =
      \<lparr>Method = MethodHead, URL = url, Accept = Some acceptTypes,
       Authorization = Some (Bearer token)\<rparr>" for token
    unfolding assms(4) by simp
  show ?thesis
    unfolding req2 assms(4) assms(2)
    using assms(1) assms(3)[unfolded assms(2)]
    by (auto simp: GetRemoteDigest_def NewRequest_def Let_def StatusUnauthorized_def
             split: sum.splits prod.splits)
qed

lemma GetRemoteDigest_no_request:
  assumes "parseImageRef img = Inr (reg, repo, tag)"
    and "url_Parse env (''https://'' @ reg @ ''/v2/'' @ repo @ ''/manifests/'' @ tag) = Some err"
  shows "GetRemoteDigest env img pullSecrets h = (Inl err, h)"
  using assms by (simp add: GetRemoteDigest_def NewRequest_def)

lemma GetRemoteDigest_first_event:
  assumes "parseImageRef img = Inr (reg, repo, tag)"
    and "url = ''https://'' @ reg @ ''/v2/'' @ repo @ ''/manifests/'' @ tag"
    and "url_Parse env url = None"
    and "req1 = setAuth env \<lparr>Method = MethodHead, URL = url, Accept = Some acceptTypes,
                             Authorization = None\<rparr> reg pullSecrets"
  shows "\<exists>evs. snd (GetRemoteDigest env img pullSecrets h) = h @ HttpDo req1 # evs \<and>
           (\<forall>ev \<in> set evs. \<exists>req. ev = HttpDo req)"
proof (cases "Do env h req1")
  case (Inl e)
  then show ?thesis by (simp add: GetRemoteDigest_unfold[OF assms])
next
  case (Inr resp)
  show ?thesis
  proof (cases "StatusCode resp = 401")
    case False
    with Inr show ?thesis by (simp add: GetRemoteDigest_unfold[OF assms])
  next
    case True
    let ?f = "fetchBearerToken env (Header_Get resp ''Www-Authenticate'') reg pullSecrets
                (h @ [HttpDo req1])"
    obtain r2 h2 where f: "?f = (r2, h2)" by (cases ?f)
    from fetchBearerToken_events[of env "Header_Get resp ''Www-Authenticate''" reg pullSecrets
        "h @ [HttpDo req1]"] f
    obtain tok where t: "h2 = h @ HttpDo req1 # tok" "\<forall>ev \<in> set tok. \<exists>req. ev = HttpDo req"
      by auto
    show ?thesis
    proof (cases r2)
      case (Inl err)
      with Inr True f t show ?thesis by (simp add: GetRemoteDigest_unfold[OF assms])
    next
      case r: (Inr token)
      with Inr True f t show ?thesis
        by (cases "Do env h2 (req1\<lparr>Authorization := Some (Bearer token)\<rparr>)")
           (simp_all add: GetRemoteDigest_unfold[OF assms])
    qed
  qed
qed

lemma GetRemoteDigest_extends:
  "\<exists>evs. snd (GetRemoteDigest env img pullSecrets h) = h @ evs \<and>
         (\<forall>ev \<in> set evs. \<exists>req. ev = HttpDo req)"
proof -
  obtain reg repo tag where p: "parseImageRef img = Inr (reg, repo, tag)"
    using parseImageRef_tagOf by blast
  let ?url = "''https://'' @ reg @ ''/v2/'' @ repo @ ''/manifests/'' @ tag"
  show ?thesis
  proof (cases "url_Parse env ?url")
    case None
    from GetRemoteDigest_first_event[OF p refl None refl, of pullSecrets h]
    obtain evs where "snd (GetRemoteDigest env img pullSecrets h) =
        h @ HttpDo (setAuth env \<lparr>Method = MethodHead, URL = ?url, Accept = Some acceptTypes,
                             Authorization = None\<rparr> reg pullSecrets) # evs"
      and "\<forall>ev \<in> set evs. \<exists>req. ev = HttpDo req" by blast
    then show ?thesis by auto
  next
    case (Some err)
    then show ?thesis using GetRemoteDigest_no_request[OF p Some] by simp
  qed
qed

text \<open>
  C6. Name the parsed reference, the manifest URL and the first request \<open>req1\<close> (the
  \<open>HEAD\<close> request with the credential of \<open>setAuth\<close>, if any), for a URL that parses. Then
  \<^item> a transport failure of the first request ends the call with an error after that one
    request;
  \<^item> a first response other than 401 is final: nothing more is sent;
  \<^item> after a 401, if the token exchange fails the call ends with that error and no
    retry, and a transport failure of the token request fails the exchange at once; if
    the exchange gives a token, exactly one more request is sent, \<open>req1\<close> with the bearer
    token as its authorization, and it is the last event: a transport failure of it ends
    the call with an error, and its response is final whatever its status, 401 included;
  \<^item> a final response whose status is not 200 gives the error that carries the status and
    the URL, and it gives a digest exactly when its status is 200 and its
    \<open>Docker-Content-Digest\<close> header is not empty, the digest being that header;
  \<^item> in all, at most two \<open>HEAD\<close> requests are sent, and a digest that is returned is
    the non-empty header of a 200 response to the last event, a \<open>HEAD\<close> request for the
    URL. The body of a response is not looked at.
\<close>

theorem GetRemoteDigest_one_retry:
  assumes "parseImageRef img = Inr (reg, repo, tag)"
    and "url = ''https://'' @ reg @ ''/v2/'' @ repo @ ''/manifests/'' @ tag"
    and "url_Parse env url = None"
    and "req1 = setAuth env \<lparr>Method = MethodHead, URL = url, Accept = Some acceptTypes,
                             Authorization = None\<rparr> reg pullSecrets"
    and "GetRemoteDigest env img pullSecrets h = (result, h')"
  shows
    "(\<forall>e. Do env h req1 = Inl e \<longrightarrow> result = Inl (HeadFailed url e) \<and> h' = h @ [HttpDo req1]) \<and>
     (\<forall>resp. Do env h req1 = Inr resp \<and> StatusCode resp \<noteq> 401 \<longrightarrow>
        result = digestOf url resp \<and> h' = h @ [HttpDo req1]) \<and>
     (\<forall>resp err h2.
        Do env h req1 = Inr resp \<and> StatusCode resp = 401 \<and>
        fetchBearerToken env (Header_Get resp ''Www-Authenticate'') reg pullSecrets
          (h @ [HttpDo req1]) = (Inl err, h2) \<longrightarrow>
        result = Inl (FetchingBearerToken err) \<and> h' = h2) \<and>
     (\<forall>wwwAuth ht treq e.
        lookup (parseWWWAuth wwwAuth) ''realm'' \<noteq> [] \<and>
        url_Parse env (tokenURL (parseWWWAuth wwwAuth)) = None \<and>
        treq = setAuth env \<lparr>Method = MethodGet, URL = tokenURL (parseWWWAuth wwwAuth),
                             Accept = None, Authorization = None\<rparr> reg pullSecrets \<and>
        Do env ht treq = Inl e \<longrightarrow>
        fetchBearerToken env wwwAuth reg pullSecrets ht = (Inl e, ht @ [HttpDo treq])) \<and>
     (\<forall>resp token h2.
        Do env h req1 = Inr resp \<and> StatusCode resp = 401 \<and>
        fetchBearerToken env (Header_Get resp ''Www-Authenticate'') reg pullSecrets
          (h @ [HttpDo req1]) = (Inr token, h2) \<longrightarrow>
        h' = h2 @ [HttpDo (req1\<lparr>Authorization := Some (Bearer token)\<rparr>)] \<and>
        (\<forall>e. Do env h2 (req1\<lparr>Authorization := Some (Bearer token)\<rparr>) = Inl e \<longrightarrow>
           result = Inl (HeadAuthedFailed url e)) \<and>
        (\<forall>resp2. Do env h2 (req1\<lparr>Authorization := Some (Bearer token)\<rparr>) = Inr resp2 \<longrightarrow>
           result = digestOf url resp2)) \<and>
     (\<forall>resp. (StatusCode resp \<noteq> 200 \<longrightarrow>
                digestOf url resp = Inl (UnexpectedStatus (StatusCode resp) url)) \<and>
             (\<forall>d. digestOf url resp = Inr d \<longleftrightarrow>
                StatusCode resp = 200 \<and> Header_Get resp ''Docker-Content-Digest'' = d \<and> d \<noteq> [])) \<and>
     (\<exists>evs. h' = h @ evs \<and> length (heads evs) \<le> 2) \<and>
     (\<forall>d. result = Inr d \<longrightarrow>
        d \<noteq> [] \<and>
        (\<exists>hs req resp. h' = hs @ [HttpDo req] \<and> Method req = MethodHead \<and> URL req = url \<and>
           Do env hs req = Inr resp \<and> StatusCode resp = 200 \<and>
           Header_Get resp ''Docker-Content-Digest'' = d))"
proof -
  let ?r0 = "\<lparr>Method = MethodHead, URL = url, Accept = Some acceptTypes, Authorization = None\<rparr>"
  let ?h1 = "h @ [HttpDo req1]"
  let ?req2 = "\<lambda>token. req1\<lparr>Authorization := Some (Bearer token)\<rparr>"
  have req2: "?req2 token = \<lparr>Method = MethodHead, URL = url, Accept = Some acceptTypes,
                              Authorization = Some (Bearer token)\<rparr>" for token
    unfolding assms(4) by simp
  have m1: "Method req1 = MethodHead" and u1: "URL req1 = url"
    unfolding assms(4) by simp_all
  have G: "(result, h') =
     (case Do env h req1 of
        Inl err \<Rightarrow> (Inl (HeadFailed url err), ?h1)
      | Inr resp \<Rightarrow>
          if StatusCode resp = 401
          then (case fetchBearerToken env (Header_Get resp ''Www-Authenticate'') reg pullSecrets ?h1 of
                  (Inl err, h2) \<Rightarrow> (Inl (FetchingBearerToken err), h2)
                | (Inr token, h2) \<Rightarrow>
                    (case Do env h2 (?req2 token) of
                       Inl err \<Rightarrow> (Inl (HeadAuthedFailed url err), h2 @ [HttpDo (?req2 token)])
                     | Inr resp2 \<Rightarrow> (digestOf url resp2, h2 @ [HttpDo (?req2 token)])))
          else (digestOf url resp, ?h1))"
    unfolding assms(5)[symmetric] by (rule GetRemoteDigest_unfold[OF assms(1-4)])
  have A: "\<forall>e. Do env h req1 = Inl e \<longrightarrow> result = Inl (HeadFailed url e) \<and> h' = h @ [HttpDo req1]"
    using G by auto
  have B: "\<forall>resp. Do env h req1 = Inr resp \<and> StatusCode resp \<noteq> 401 \<longrightarrow>
        result = digestOf url resp \<and> h' = h @ [HttpDo req1]"
    using G by auto
  have C: "\<forall>resp err h2.
        Do env h req1 = Inr resp \<and> StatusCode resp = 401 \<and>
        fetchBearerToken env (Header_Get resp ''Www-Authenticate'') reg pullSecrets
          (h @ [HttpDo req1]) = (Inl err, h2) \<longrightarrow>
        result = Inl (FetchingBearerToken err) \<and> h' = h2"
    using G by auto
  have T: "\<forall>wwwAuth ht treq e.
        lookup (parseWWWAuth wwwAuth) ''realm'' \<noteq> [] \<and>
        url_Parse env (tokenURL (parseWWWAuth wwwAuth)) = None \<and>
        treq = setAuth env \<lparr>Method = MethodGet, URL = tokenURL (parseWWWAuth wwwAuth),
                             Accept = None, Authorization = None\<rparr> reg pullSecrets \<and>
        Do env ht treq = Inl e \<longrightarrow>
        fetchBearerToken env wwwAuth reg pullSecrets ht = (Inl e, ht @ [HttpDo treq])"
    by (simp add: fetchBearerToken_def NewRequest_def Let_def)
  have D: "\<forall>resp token h2.
        Do env h req1 = Inr resp \<and> StatusCode resp = 401 \<and>
        fetchBearerToken env (Header_Get resp ''Www-Authenticate'') reg pullSecrets
          (h @ [HttpDo req1]) = (Inr token, h2) \<longrightarrow>
        h' = h2 @ [HttpDo (?req2 token)] \<and>
        (\<forall>e. Do env h2 (?req2 token) = Inl e \<longrightarrow> result = Inl (HeadAuthedFailed url e)) \<and>
        (\<forall>resp2. Do env h2 (?req2 token) = Inr resp2 \<longrightarrow> result = digestOf url resp2)"
    using G by (auto split: sum.splits)
  have E: "\<forall>resp. (StatusCode resp \<noteq> 200 \<longrightarrow>
                digestOf url resp = Inl (UnexpectedStatus (StatusCode resp) url)) \<and>
             (\<forall>d. digestOf url resp = Inr d \<longleftrightarrow>
                StatusCode resp = 200 \<and> Header_Get resp ''Docker-Content-Digest'' = d \<and> d \<noteq> [])"
    by (simp add: digestOf_status digestOf_Inr)
  have F: "\<exists>evs. h' = h @ evs \<and> length (heads evs) \<le> 2"
  proof (cases "Do env h req1")
    case (Inl e)
    with A show ?thesis by (simp add: m1)
  next
    case (Inr resp)
    show ?thesis
    proof (cases "StatusCode resp = 401")
      case False
      with Inr B show ?thesis by (simp add: m1)
    next
      case True
      obtain r2 h2 where f: "fetchBearerToken env (Header_Get resp ''Www-Authenticate'') reg
          pullSecrets ?h1 = (r2, h2)" by (cases "fetchBearerToken env (Header_Get resp ''Www-Authenticate'') reg
          pullSecrets ?h1")
      from fetchBearerToken_events[of env "Header_Get resp ''Www-Authenticate''" reg pullSecrets ?h1] f
      obtain tok where t: "h2 = ?h1 @ tok" "heads tok = []" by auto
      show ?thesis
      proof (cases r2)
        case (Inl err)
        with C Inr True f have "h' = h2" by blast
        with t show ?thesis by (simp add: m1)
      next
        case r: (Inr token)
        with D Inr True f have "h' = h2 @ [HttpDo (?req2 token)]" by blast
        with t show ?thesis by (simp add: m1)
      qed
    qed
  qed
  have S: "\<forall>d. result = Inr d \<longrightarrow>
        d \<noteq> [] \<and>
        (\<exists>hs req resp. h' = hs @ [HttpDo req] \<and> Method req = MethodHead \<and> URL req = url \<and>
           Do env hs req = Inr resp \<and> StatusCode resp = 200 \<and>
           Header_Get resp ''Docker-Content-Digest'' = d)"
  proof (intro allI impI)
    fix d assume d: "result = Inr d"
    show "d \<noteq> [] \<and>
        (\<exists>hs req resp. h' = hs @ [HttpDo req] \<and> Method req = MethodHead \<and> URL req = url \<and>
           Do env hs req = Inr resp \<and> StatusCode resp = 200 \<and>
           Header_Get resp ''Docker-Content-Digest'' = d)"
    proof (cases "Do env h req1")
      case (Inl e)
      with A d show ?thesis by simp
    next
      case (Inr resp)
      show ?thesis
      proof (cases "StatusCode resp = 401")
        case False
        with Inr B d have "digestOf url resp = Inr d" and "h' = h @ [HttpDo req1]" by auto
        with Inr m1 u1 show ?thesis by (auto simp: digestOf_Inr)
      next
        case True
        obtain r2 h2 where f: "fetchBearerToken env (Header_Get resp ''Www-Authenticate'') reg
            pullSecrets ?h1 = (r2, h2)" by (cases "fetchBearerToken env (Header_Get resp ''Www-Authenticate'') reg
            pullSecrets ?h1")
        show ?thesis
        proof (cases r2)
          case (Inl err)
          with C Inr True f d show ?thesis by auto
        next
          case r: (Inr token)
          from D Inr True f r have h': "h' = h2 @ [HttpDo (?req2 token)]"
            and e: "\<forall>e. Do env h2 (?req2 token) = Inl e \<longrightarrow> result = Inl (HeadAuthedFailed url e)"
            and k: "\<forall>resp2. Do env h2 (?req2 token) = Inr resp2 \<longrightarrow> result = digestOf url resp2"
            by blast+
          from e d obtain resp2 where r2: "Do env h2 (?req2 token) = Inr resp2"
            by (cases "Do env h2 (?req2 token)") auto
          with k d have "digestOf url resp2 = Inr d" by simp
          then have "StatusCode resp2 = 200 \<and> Header_Get resp2 ''Docker-Content-Digest'' = d \<and> d \<noteq> []"
            by (simp add: digestOf_Inr)
          moreover have "Method (?req2 token) = MethodHead" "URL (?req2 token) = url"
            by (simp_all add: req2)
          ultimately show ?thesis using h' r2 by blast
        qed
      qed
    qed
  qed
  from A B C T D E F S show ?thesis by blast
qed

lemma demo_lookup:
  \<open>GetRemoteDigest (demoEnv [] (\<lambda>sel. [])) ''nginx'' [] [] =
     (Inr ''sha256:bbb'',
      [HttpDo \<lparr>Method = ''HEAD'',
               URL = ''https://registry-1.docker.io/v2/library/nginx/manifests/latest'',
               Accept = Some acceptTypes, Authorization = None\<rparr>,
       HttpDo \<lparr>Method = ''GET'', URL = ''https://auth.x/token?service=registry.x'',
               Accept = None, Authorization = None\<rparr>,
       HttpDo \<lparr>Method = ''HEAD'',
               URL = ''https://registry-1.docker.io/v2/library/nginx/manifests/latest'',
               Accept = Some acceptTypes, Authorization = Some (Bearer ''t0'')\<rparr>])\<close>
  by code_simp

theorem GetRemoteDigest_one_retry_witness:
  \<open>parseImageRef ''nginx'' = Inr (''registry-1.docker.io'', ''library/nginx'', ''latest'') \<and>
   url_Parse (demoEnv [] (\<lambda>sel. []))
     ''https://registry-1.docker.io/v2/library/nginx/manifests/latest'' = None \<and>
   fst (GetRemoteDigest (demoEnv [] (\<lambda>sel. [])) ''nginx'' [] []) = Inr ''sha256:bbb'' \<and>
   length (heads (snd (GetRemoteDigest (demoEnv [] (\<lambda>sel. [])) ''nginx'' [] []))) = 2 \<and>
   (\<exists>hs req resp.
      snd (GetRemoteDigest (demoEnv [] (\<lambda>sel. [])) ''nginx'' [] []) = hs @ [HttpDo req] \<and>
      Method req = MethodHead \<and>
      URL req = ''https://registry-1.docker.io/v2/library/nginx/manifests/latest'' \<and>
      Do (demoEnv [] (\<lambda>sel. [])) hs req = Inr resp \<and> StatusCode resp = 200 \<and>
      Header_Get resp ''Docker-Content-Digest'' = ''sha256:bbb'')\<close>
proof -
  let ?env = "demoEnv [] (\<lambda>sel. [])"
  let ?url = "''https://registry-1.docker.io/v2/library/nginx/manifests/latest''"
  have p: "parseImageRef ''nginx'' = Inr (''registry-1.docker.io'', ''library/nginx'', ''latest'')"
    by code_simp
  have u: "?url = ''https://'' @ ''registry-1.docker.io'' @ ''/v2/'' @ ''library/nginx'' @
             ''/manifests/'' @ ''latest''"
    by simp
  have n: "url_Parse ?env ?url = None" by (simp add: demoEnv_def)
  obtain result h' where g: "GetRemoteDigest ?env ''nginx'' [] [] = (result, h')"
    by (cases "GetRemoteDigest ?env ''nginx'' [] []")
  with demo_lookup have r: "result = Inr ''sha256:bbb''" by simp
  have c: "length (heads (snd (GetRemoteDigest ?env ''nginx'' [] []))) = 2"
    unfolding demo_lookup by (simp add: MethodHead_def)
  from GetRemoteDigest_one_retry[OF p u n refl g] r
  have "\<exists>hs req resp. h' = hs @ [HttpDo req] \<and> Method req = MethodHead \<and> URL req = ?url \<and>
           Do ?env hs req = Inr resp \<and> StatusCode resp = 200 \<and>
           Header_Get resp ''Docker-Content-Digest'' = ''sha256:bbb''"
    by blast
  with p n g r c show ?thesis by simp
qed

section \<open>The staleness check of a pod\<close>

lemma quiet_simps [simp]:
  "quiet (HttpDo req)" "quiet (Log l)" "\<not> quiet (DeletePod ns name)"
  "\<not> quiet (ListPods ns sel)" "\<not> quiet (GetSecret ns name)" "\<not> quiet (ListDeployments ns)"
  by (simp_all add: quiet_def)

lemma loop_extends:
  "\<exists>evs. snd (shouldDeletePod_loop env pod pullSecrets i cs h) = h @ evs \<and>
         (\<forall>ev \<in> set evs. quiet ev)"
proof (induction cs arbitrary: i h)
  case Nil
  then show ?case by simp
next
  case (Cons c cs)
  let ?g = "GetRemoteDigest env (Image c) pullSecrets h"
  obtain r h1 where g: "?g = (r, h1)" by (cases ?g)
  from GetRemoteDigest_extends[of env "Image c" pullSecrets h] g
  obtain e1 where e1: "h1 = h @ e1" "\<forall>ev \<in> set e1. quiet ev"
    by fastforce
  have step: "\<exists>evs. snd (shouldDeletePod_loop env pod pullSecrets (i + 1) cs (h1 @ l)) = h @ evs \<and>
         (\<forall>ev \<in> set evs. quiet ev)" if "\<forall>ev \<in> set l. quiet ev" for l
  proof -
    from Cons[of "i + 1" "h1 @ l"] obtain e2 where
      "snd (shouldDeletePod_loop env pod pullSecrets (i + 1) cs (h1 @ l)) = (h1 @ l) @ e2"
      "\<forall>ev \<in> set e2. quiet ev" by blast
    with e1 that show ?thesis by (intro exI[of _ "e1 @ l @ e2"]) auto
  qed
  have here: "\<exists>evs. h1 @ l = h @ evs \<and> (\<forall>ev \<in> set evs. quiet ev)"
    if "\<forall>ev \<in> set l. quiet ev" for l
    using e1 that by (intro exI[of _ "e1 @ l"]) auto
  show ?case
    using Cons[of "i + 1" h] g step[of "[]"] step[of "[Log _]"] here[of "[Log _]"]
    by (auto simp: Let_def split: sum.splits)
qed

lemma loop_out_of_range:
  "length (ContainerStatuses pod) \<le> i \<Longrightarrow>
     \<not> fst (shouldDeletePod_loop env pod pullSecrets i cs h)"
  by (induction cs arbitrary: i h) (auto simp: Let_def split: sum.splits prod.splits)

lemma loop_single:
  "fst (shouldDeletePod_loop env pod pullSecrets i [c] h) = staleAt env pod pullSecrets i c h"
  by (auto simp: staleAt_def Let_def split: sum.splits prod.splits)

lemma loop_append:
  "shouldDeletePod_loop env pod pullSecrets k (xs @ ys) h =
     (if fst (shouldDeletePod_loop env pod pullSecrets k xs h)
      then shouldDeletePod_loop env pod pullSecrets k xs h
      else shouldDeletePod_loop env pod pullSecrets (k + length xs) ys
             (snd (shouldDeletePod_loop env pod pullSecrets k xs h)))"
proof (induction xs arbitrary: k h)
  case Nil
  then show ?case by simp
next
  case (Cons c xs)
  have s: "k + 1 + length xs = k + length (c # xs)" by simp
  show ?case
    unfolding append_Cons shouldDeletePod_loop.simps Cons s
    by (simp add: Let_def split: sum.splits prod.splits)
qed

lemma loop_snoc:
  "fst (shouldDeletePod_loop env pod pullSecrets k (cs @ [c]) h) \<longleftrightarrow>
     fst (shouldDeletePod_loop env pod pullSecrets k cs h) \<or>
     staleAt env pod pullSecrets (k + length cs) c
       (snd (shouldDeletePod_loop env pod pullSecrets k cs h))"
proof (cases "fst (shouldDeletePod_loop env pod pullSecrets k cs h)")
  case True
  then show ?thesis by (simp only: loop_append if_True simp_thms)
next
  case False
  then show ?thesis by (simp only: loop_append if_False loop_single simp_thms)
qed

lemma loop_iff:
  "fst (shouldDeletePod_loop env pod pullSecrets k cs h) \<longleftrightarrow>
     (\<exists>i < length cs.
        staleAt env pod pullSecrets (k + i) (cs ! i)
          (snd (shouldDeletePod_loop env pod pullSecrets k (take i cs) h)))"
proof (induction cs rule: rev_induct)
  case Nil
  then show ?case by simp
next
  case (snoc c cs)
  let ?L = "\<lambda>xs. shouldDeletePod_loop env pod pullSecrets k xs h"
  let ?S = "\<lambda>xs i. staleAt env pod pullSecrets (k + i) (xs ! i) (snd (?L (take i xs)))"
  have old: "?S (cs @ [c]) i = ?S cs i" if "i < length cs" for i
    using that by (simp add: nth_append)
  have new: "?S (cs @ [c]) (length cs) =
      staleAt env pod pullSecrets (k + length cs) c (snd (?L cs))"
    by simp
  have "fst (?L (cs @ [c])) \<longleftrightarrow>
      fst (?L cs) \<or> staleAt env pod pullSecrets (k + length cs) c (snd (?L cs))"
    by (rule loop_snoc)
  also have "\<dots> \<longleftrightarrow> (\<exists>i < length cs. ?S cs i) \<or> ?S (cs @ [c]) (length cs)"
    unfolding snoc new ..
  also have "\<dots> \<longleftrightarrow> (\<exists>i < length (cs @ [c]). ?S (cs @ [c]) i)"
    using old by (auto simp: less_Suc_eq)
  finally show ?case .
qed

lemma shouldDeletePod_extends:
  "\<exists>evs. snd (shouldDeletePod env pod pullSecrets h) = h @ evs \<and> (\<forall>ev \<in> set evs. quiet ev)"
  unfolding shouldDeletePod_def by (rule loop_extends)

lemma reconcilePod_deletes:
  "DeletePod (Pod_Namespace pod) (Pod_Name pod)
     \<in> set (drop (length h) (reconcilePod env pullSecrets pod h)) \<longleftrightarrow>
   Phase pod = PodRunning \<and> fst (shouldDeletePod env pod pullSecrets h)"
proof -
  obtain b h1 where s: "shouldDeletePod env pod pullSecrets h = (b, h1)"
    by (cases "shouldDeletePod env pod pullSecrets h")
  from shouldDeletePod_extends[of env pod pullSecrets h] s
  obtain evs where e: "h1 = h @ evs" "\<forall>ev \<in> set evs. quiet ev" by auto
  then have n: "DeletePod (Pod_Namespace pod) (Pod_Name pod) \<notin> set evs" by auto
  show ?thesis
    using s e(1) n by (cases b) (auto simp: reconcilePod_def Let_def split: option.splits)
qed

text \<open>
  C1. \<open>shouldDeletePod\<close> returns true exactly when some container of the pod shows a
  confirmed digest mismatch (\<open>staleAt\<close>: always-pull policy, image accepted by the
  latest-or-untagged check, remote lookup succeeded, index within the container statuses,
  running digest not empty and different, as a string, from the remote digest), the
  lookup for the container at index \<open>i\<close> being made in the history that the checks of the
  containers before it leave. A failed lookup or a missing digest makes \<open>staleAt\<close> false
  for that container. \<open>Reconcile\<close>'s loop body issues the deletion of the pod exactly when
  the pod is running and \<open>shouldDeletePod\<close> returns true.
\<close>

theorem shouldDeletePod_confirmed_mismatch:
  "(fst (shouldDeletePod env pod pullSecrets h) \<longleftrightarrow>
      (\<exists>i < length (Containers pod).
         staleAt env pod pullSecrets i (Containers pod ! i)
           (snd (shouldDeletePod_loop env pod pullSecrets 0 (take i (Containers pod)) h)))) \<and>
   (DeletePod (Pod_Namespace pod) (Pod_Name pod)
      \<in> set (drop (length h) (reconcilePod env pullSecrets pod h)) \<longleftrightarrow>
    Phase pod = PodRunning \<and> fst (shouldDeletePod env pod pullSecrets h))"
  using loop_iff[of env pod pullSecrets 0 "Containers pod" h]
    reconcilePod_deletes[of pod h env pullSecrets]
  by (simp add: shouldDeletePod_def)

theorem shouldDeletePod_confirmed_mismatch_witness:
  "staleAt (demoEnv [] (\<lambda>sel. [])) (demoPod ''web-0'' PodRunning [''docker-pullable://nginx@sha256:aaa''])
     [] 0 (Containers (demoPod ''web-0'' PodRunning [''docker-pullable://nginx@sha256:aaa'']) ! 0) [] \<and>
   fst (shouldDeletePod (demoEnv [] (\<lambda>sel. []))
          (demoPod ''web-0'' PodRunning [''docker-pullable://nginx@sha256:aaa'']) [] []) \<and>
   DeletePod ''default'' ''web-0''
     \<in> set (reconcilePod (demoEnv [] (\<lambda>sel. [])) []
              (demoPod ''web-0'' PodRunning [''docker-pullable://nginx@sha256:aaa'']) []) \<and>
   \<not> fst (shouldDeletePod (demoEnv [] (\<lambda>sel. []))
          (demoPod ''web-0'' PodRunning [''docker-pullable://nginx@sha256:bbb'']) [] [])"
proof -
  let ?env = "demoEnv [] (\<lambda>sel. [])"
  let ?pod = "demoPod ''web-0'' PodRunning [''docker-pullable://nginx@sha256:aaa'']"
  let ?same = "demoPod ''web-0'' PodRunning [''docker-pullable://nginx@sha256:bbb'']"
  have st: "staleAt ?env ?pod [] 0 (Containers ?pod ! 0) []" by code_simp
  have ns: "\<not> staleAt ?env ?same [] 0 (Containers ?same ! 0) []" by code_simp
  have l: "length (Containers ?pod) = 1" "length (Containers ?same) = 1"
    by (simp_all add: demoPod_def)
  have n: "Pod_Namespace ?pod = ''default''" "Pod_Name ?pod = ''web-0''" "Phase ?pod = PodRunning"
    by (simp_all add: demoPod_def)
  from shouldDeletePod_confirmed_mismatch[of ?env ?pod "[]" "[]"] st l
  have d: "fst (shouldDeletePod ?env ?pod [] [])"
    and "DeletePod (Pod_Namespace ?pod) (Pod_Name ?pod) \<in> set (drop (length []) (reconcilePod ?env [] ?pod [])) \<longleftrightarrow>
      Phase ?pod = PodRunning \<and> fst (shouldDeletePod ?env ?pod [] [])"
    by simp_all
  then have del: "DeletePod ''default'' ''web-0'' \<in> set (reconcilePod ?env [] ?pod [])"
    using n by simp
  from shouldDeletePod_confirmed_mismatch[of ?env ?same "[]" "[]"] ns l
  have k: "\<not> fst (shouldDeletePod ?env ?same [] [])" by simp
  from st d del k show ?thesis by blast
qed

text \<open>
  C9. When the loop of \<open>shouldDeletePod\<close> reaches, at an index \<open>i\<close> that has no container
  status, a container with the always-pull policy and an image accepted by
  \<open>isLatestTag\<close>, it first runs the remote digest lookup and only then skips the
  container: the loop goes on from the history the lookup leaves (with the log line of
  a failed lookup), the container never makes the pod stale, and, when the request for
  the manifest can be built, that request is the first event after the history in which
  the container was reached.
\<close>

theorem lookup_before_status_check:
  assumes "ImagePullPolicy c = PullAlways"
    and "isLatestTag (Image c)"
    and "length (ContainerStatuses pod) \<le> i"
  shows
    "(case GetRemoteDigest env (Image c) pullSecrets h of
        (Inl err, h1) \<Rightarrow>
          shouldDeletePod_loop env pod pullSecrets i (c # rest) h =
            shouldDeletePod_loop env pod pullSecrets (i + 1) rest
              (h1 @ [Log (ErrorFetchingRemoteDigest (Image c) err)])
      | (Inr remoteDigest, h1) \<Rightarrow>
          shouldDeletePod_loop env pod pullSecrets i (c # rest) h =
            shouldDeletePod_loop env pod pullSecrets (i + 1) rest h1) \<and>
     \<not> fst (shouldDeletePod_loop env pod pullSecrets i (c # rest) h) \<and>
     (\<forall>reg repo tag.
        parseImageRef (Image c) = Inr (reg, repo, tag) \<and>
        url_Parse env (''https://'' @ reg @ ''/v2/'' @ repo @ ''/manifests/'' @ tag) = None \<longrightarrow>
        (\<exists>evs. snd (shouldDeletePod_loop env pod pullSecrets i (c # rest) h) =
           h @ HttpDo (setAuth env
                  \<lparr>Method = MethodHead,
                   URL = ''https://'' @ reg @ ''/v2/'' @ repo @ ''/manifests/'' @ tag,
                   Accept = Some acceptTypes, Authorization = None\<rparr> reg pullSecrets) # evs))"
proof -
  let ?g = "GetRemoteDigest env (Image c) pullSecrets h"
  obtain r h1 where g: "?g = (r, h1)" by (cases ?g)
  let ?h2 = "case r of Inl err \<Rightarrow> h1 @ [Log (ErrorFetchingRemoteDigest (Image c) err)] | Inr d \<Rightarrow> h1"
  have step: "shouldDeletePod_loop env pod pullSecrets i (c # rest) h =
      shouldDeletePod_loop env pod pullSecrets (i + 1) rest ?h2"
    using assms g by (simp split: sum.splits)
  have 1: "case ?g of
        (Inl err, h1) \<Rightarrow>
          shouldDeletePod_loop env pod pullSecrets i (c # rest) h =
            shouldDeletePod_loop env pod pullSecrets (i + 1) rest
              (h1 @ [Log (ErrorFetchingRemoteDigest (Image c) err)])
      | (Inr remoteDigest, h1) \<Rightarrow>
          shouldDeletePod_loop env pod pullSecrets i (c # rest) h =
            shouldDeletePod_loop env pod pullSecrets (i + 1) rest h1"
    unfolding step g by (simp split: sum.splits)
  have 2: "\<not> fst (shouldDeletePod_loop env pod pullSecrets i (c # rest) h)"
    using assms(3) by (rule loop_out_of_range)
  have 3: "\<exists>evs. snd (shouldDeletePod_loop env pod pullSecrets i (c # rest) h) =
           h @ HttpDo (setAuth env
                  \<lparr>Method = MethodHead,
                   URL = ''https://'' @ reg @ ''/v2/'' @ repo @ ''/manifests/'' @ tag,
                   Accept = Some acceptTypes, Authorization = None\<rparr> reg pullSecrets) # evs"
    if p: "parseImageRef (Image c) = Inr (reg, repo, tag)"
      and u: "url_Parse env (''https://'' @ reg @ ''/v2/'' @ repo @ ''/manifests/'' @ tag) = None"
    for reg repo tag
  proof -
    let ?req1 = "setAuth env
                  \<lparr>Method = MethodHead,
                   URL = ''https://'' @ reg @ ''/v2/'' @ repo @ ''/manifests/'' @ tag,
                   Accept = Some acceptTypes, Authorization = None\<rparr> reg pullSecrets"
    from GetRemoteDigest_first_event[OF p refl u refl, of pullSecrets h] g
    obtain e1 where e1: "h1 = h @ HttpDo ?req1 # e1" by auto
    have "\<exists>l. ?h2 = h1 @ l" by (cases r) simp_all
    then obtain l where l: "?h2 = h1 @ l" ..
    from loop_extends[of env pod pullSecrets "i + 1" rest ?h2]
    obtain e2 where "snd (shouldDeletePod_loop env pod pullSecrets (i + 1) rest ?h2) = ?h2 @ e2"
      by blast
    with step l e1 have "snd (shouldDeletePod_loop env pod pullSecrets i (c # rest) h) =
        h @ HttpDo ?req1 # (e1 @ l @ e2)"
      by simp
    then show ?thesis ..
  qed
  from 1 2 3 show ?thesis by blast
qed

theorem lookup_before_status_check_witness:
  "ImagePullPolicy (Containers (demoPod ''web-0'' PodRunning []) ! 0) = PullAlways \<and>
   isLatestTag (Image (Containers (demoPod ''web-0'' PodRunning []) ! 0)) \<and>
   length (ContainerStatuses (demoPod ''web-0'' PodRunning [])) \<le> 0 \<and>
   \<not> fst (shouldDeletePod (demoEnv [] (\<lambda>sel. [])) (demoPod ''web-0'' PodRunning []) [] []) \<and>
   (\<exists>evs. snd (shouldDeletePod (demoEnv [] (\<lambda>sel. [])) (demoPod ''web-0'' PodRunning []) [] []) =
      HttpDo \<lparr>Method = MethodHead,
              URL = ''https://registry-1.docker.io/v2/library/nginx/manifests/latest'',
              Accept = Some acceptTypes, Authorization = None\<rparr> # evs)"
proof -
  let ?env = "demoEnv [] (\<lambda>sel. [])"
  let ?pod = "demoPod ''web-0'' PodRunning []"
  let ?c = "\<lparr>Container_Name = ''web'', Image = ''nginx:latest'', ImagePullPolicy = PullAlways\<rparr>"
  have cs: "Containers ?pod = [?c]" by (simp add: demoPod_def)
  have a: "ImagePullPolicy ?c = PullAlways" by simp
  have l: "isLatestTag (Image ?c)" by code_simp
  have o: "length (ContainerStatuses ?pod) \<le> 0" by (simp add: demoPod_def)
  have p: "parseImageRef (Image ?c) =
      Inr (''registry-1.docker.io'', ''library/nginx'', ''latest'')" by code_simp
  have u: "url_Parse ?env (''https://'' @ ''registry-1.docker.io'' @ ''/v2/'' @ ''library/nginx'' @
      ''/manifests/'' @ ''latest'') = None" by (simp add: demoEnv_def)
  have s: "setAuth ?env req reg [] = req" for req reg by simp
  note t = lookup_before_status_check[OF a l o, of ?env "[]" "[]" "[]"]
  from t have 2: "\<not> fst (shouldDeletePod_loop ?env ?pod [] 0 [?c] [])" by blast
  from t p u have "\<exists>evs. snd (shouldDeletePod_loop ?env ?pod [] 0 [?c] []) =
      [] @ HttpDo (setAuth ?env \<lparr>Method = MethodHead,
              URL = ''https://'' @ ''registry-1.docker.io'' @ ''/v2/'' @ ''library/nginx'' @
                ''/manifests/'' @ ''latest'',
              Accept = Some acceptTypes, Authorization = None\<rparr> ''registry-1.docker.io'' []) # evs"
    by blast
  then have 3: "\<exists>evs. snd (shouldDeletePod_loop ?env ?pod [] 0 [?c] []) =
      HttpDo \<lparr>Method = MethodHead,
              URL = ''https://registry-1.docker.io/v2/library/nginx/manifests/latest'',
              Accept = Some acceptTypes, Authorization = None\<rparr> # evs"
    by (simp add: s)
  from a l o 2 3 show ?thesis by (simp add: shouldDeletePod_def cs)
qed

section \<open>The reconciliation pass\<close>

lemma reconcilePod_extends: "\<exists>evs. reconcilePod env pullSecrets pod h = h @ evs"
proof -
  obtain b h1 where s: "shouldDeletePod env pod pullSecrets h = (b, h1)"
    by (cases "shouldDeletePod env pod pullSecrets h")
  from shouldDeletePod_extends[of env pod pullSecrets h] s
  obtain evs where e: "h1 = h @ evs" by auto
  show ?thesis
    using s e by (cases b) (auto simp: reconcilePod_def Let_def split: option.splits)
qed

lemma fold_extends:
  assumes "\<And>x h. \<exists>evs. f x h = h @ evs"
  shows "\<exists>evs. fold f xs h = h @ evs"
proof (induction xs arbitrary: h)
  case Nil
  then show ?case by simp
next
  case (Cons x xs)
  from assms[of x h] obtain e1 where e1: "f x h = h @ e1" ..
  from Cons[of "h @ e1"] obtain e2 where "fold f xs (h @ e1) = (h @ e1) @ e2" ..
  with e1 show ?case by simp
qed

lemma gatherPullSecrets_loop_extends:
  "\<exists>evs. snd (gatherPullSecrets_loop env pod refs secrets h) = h @ evs"
proof (induction refs arbitrary: secrets h)
  case Nil
  then show ?case by simp
next
  case (Cons ref refs)
  show ?case
  proof (cases "Secrets_Get env h (Pod_Namespace pod) ref")
    case (Inl err)
    from Cons[of secrets "h @ [GetSecret (Pod_Namespace pod) ref, Log (WarnPullSecret ref err)]"]
    show ?thesis using Inl by auto
  next
    case (Inr secret)
    from Cons[of "secrets @ [secret]" "h @ [GetSecret (Pod_Namespace pod) ref]"]
    show ?thesis using Inr by auto
  qed
qed

lemma reconcileDeployment_extends: "\<exists>evs. reconcileDeployment env deploy h = h @ evs"
proof -
  have pods: "\<exists>evs. fold (reconcilePod env s) ps (h @ l) = h @ evs" for s ps l
    using fold_extends[of "reconcilePod env s" ps "h @ l", OF reconcilePod_extends] by auto
  have g: "\<exists>evs. snd (gatherPullSecrets env p (h @ l)) = h @ evs" for p l
    using gatherPullSecrets_loop_extends[of env p "ImagePullSecrets p" "[]" "h @ l"]
    by (auto simp: gatherPullSecrets_def)
  show ?thesis
  proof (cases "lookup (Annotations deploy) annotationKey \<noteq> ''true''")
    case True
    then show ?thesis by (simp add: reconcileDeployment_def)
  next
    case en: False
    show ?thesis
    proof (cases "LabelSelectorAsSelector env (Selector deploy)")
      case (Inl err)
      with en show ?thesis by (simp add: reconcileDeployment_def Let_def)
    next
      case (Inr selector)
      let ?h0 = "h @ [Log (CheckingDeployment (Deployment_Namespace deploy) (Deployment_Name deploy))]"
      show ?thesis
      proof (cases "Pods_List env ?h0 (Deployment_Namespace deploy) selector")
        case (Inl err)
        with en Inr show ?thesis by (simp add: reconcileDeployment_def Let_def)
      next
        case ps: (Inr podlist)
        let ?h1 = "?h0 @ [ListPods (Deployment_Namespace deploy) selector]"
        show ?thesis
        proof (cases podlist)
          case Nil
          with en Inr ps show ?thesis by (simp add: reconcileDeployment_def Let_def)
        next
          case (Cons p rest)
          obtain s h2 where gp: "gatherPullSecrets env p ?h1 = (s, h2)"
            by (cases "gatherPullSecrets env p ?h1")
          from g[of p "[Log (CheckingDeployment (Deployment_Namespace deploy) (Deployment_Name deploy)),
              ListPods (Deployment_Namespace deploy) selector]"] gp
          obtain e2 where e2: "h2 = h @ e2" by auto
          from pods[of s podlist e2] obtain e3 where "fold (reconcilePod env s) podlist (h @ e2) = h @ e3" ..
          with en Inr ps Cons gp e2 show ?thesis
            by (simp add: reconcileDeployment_def Let_def)
        qed
      qed
    qed
  qed
qed

lemma fold_keeps:
  assumes "\<And>x h. \<exists>evs. f x h = h @ evs" and "ev \<in> set h"
  shows "ev \<in> set (fold f xs h)"
  using fold_extends[of f xs h, OF assms(1)] assms(2) by auto

lemma reconcileDeployment_checking:
  assumes en: "lookup (Annotations deploy) annotationKey = ''true''"
  shows "Log (CheckingDeployment (Deployment_Namespace deploy) (Deployment_Name deploy))
           \<in> set (reconcileDeployment env deploy h)"
proof -
  let ?c = "Log (CheckingDeployment (Deployment_Namespace deploy) (Deployment_Name deploy))"
  let ?h0 = "h @ [?c]"
  have pods: "?c \<in> set (fold (reconcilePod env s) ps h2)" if "?c \<in> set h2" for s ps h2
    using fold_keeps[of "reconcilePod env s" ?c h2 ps, OF reconcilePod_extends that] .
  have g: "?c \<in> set (snd (gatherPullSecrets env p h1))" if "?c \<in> set h1" for p h1
    using gatherPullSecrets_loop_extends[of env p "ImagePullSecrets p" "[]" h1] that
    by (auto simp: gatherPullSecrets_def)
  show ?thesis
  proof (cases "LabelSelectorAsSelector env (Selector deploy)")
    case (Inl err)
    with en show ?thesis by (simp add: reconcileDeployment_def Let_def)
  next
    case (Inr selector)
    show ?thesis
    proof (cases "Pods_List env ?h0 (Deployment_Namespace deploy) selector")
      case (Inl err)
      with en Inr show ?thesis by (simp add: reconcileDeployment_def Let_def)
    next
      case ps: (Inr podlist)
      let ?h1 = "?h0 @ [ListPods (Deployment_Namespace deploy) selector]"
      show ?thesis
      proof (cases podlist)
        case Nil
        with en Inr ps show ?thesis by (simp add: reconcileDeployment_def Let_def)
      next
        case (Cons p rest)
        obtain s h2 where gp: "gatherPullSecrets env p ?h1 = (s, h2)"
          by (cases "gatherPullSecrets env p ?h1")
        from g[of ?h1 p] gp have "?c \<in> set h2" by simp
        from pods[OF this, of s podlist] en Inr ps Cons gp show ?thesis
          by (simp add: reconcileDeployment_def Let_def)
      qed
    qed
  qed
qed

lemma fold_reconcileDeployment_checking:
  assumes "deploy \<in> set ds" and "lookup (Annotations deploy) annotationKey = ''true''"
  shows "Log (CheckingDeployment (Deployment_Namespace deploy) (Deployment_Name deploy))
           \<in> set (fold (reconcileDeployment env) ds h)"
  using assms(1)
proof (induction ds arbitrary: h)
  case Nil
  then show ?case by simp
next
  case (Cons d ds)
  show ?case
  proof (cases "deploy = d")
    case True
    have "Log (CheckingDeployment (Deployment_Namespace deploy) (Deployment_Name deploy))
           \<in> set (reconcileDeployment env d h)"
      unfolding True[symmetric] using assms(2) by (rule reconcileDeployment_checking)
    then show ?thesis
      using fold_keeps[of "reconcileDeployment env" _ "reconcileDeployment env d h" ds,
          OF reconcileDeployment_extends]
      by simp
  next
    case False
    with Cons.prems have "deploy \<in> set ds" by simp
    from Cons.IH[OF this] show ?thesis by simp
  qed
qed

lemma fold_reconcilePod_deletes:
  assumes "Phase pod = PodRunning"
    and "fst (shouldDeletePod env pod pullSecrets (fold (reconcilePod env pullSecrets) before h))"
  shows "DeletePod (Pod_Namespace pod) (Pod_Name pod)
           \<in> set (drop (length h) (fold (reconcilePod env pullSecrets) (before @ pod # after) h))"
proof -
  let ?d = "DeletePod (Pod_Namespace pod) (Pod_Name pod)"
  let ?hp = "fold (reconcilePod env pullSecrets) before h"
  from fold_extends[of "reconcilePod env pullSecrets" before h, OF reconcilePod_extends]
  obtain e1 where e1: "?hp = h @ e1" ..
  from reconcilePod_extends[of env pullSecrets pod ?hp]
  obtain e2 where e2: "reconcilePod env pullSecrets pod ?hp = ?hp @ e2" ..
  from reconcilePod_deletes[of pod ?hp env pullSecrets] assms
  have "?d \<in> set (drop (length ?hp) (reconcilePod env pullSecrets pod ?hp))" by simp
  with e2 have d: "?d \<in> set e2" by simp
  from fold_extends[of "reconcilePod env pullSecrets" after "?hp @ e2", OF reconcilePod_extends]
  obtain e3 where e3: "fold (reconcilePod env pullSecrets) after (?hp @ e2) = (?hp @ e2) @ e3" ..
  have "fold (reconcilePod env pullSecrets) (before @ pod # after) h = h @ e1 @ e2 @ e3"
    using e2 e3 e1 by simp
  with d show ?thesis by simp
qed

lemma drop_extends:
  assumes "b = a @ e1" and "c = b @ e2" and "ev \<in> set (drop (length b) c) \<or> ev \<in> set (drop (length a) b)"
  shows "ev \<in> set (drop (length a) c)"
  using assms by auto

lemma reconcileDeployment_success:
  assumes "lookup (Annotations deploy) annotationKey = ''true''"
    and "LabelSelectorAsSelector env (Selector deploy) = Inr selector"
    and "Pods_List env
        (hk @ [Log (CheckingDeployment (Deployment_Namespace deploy) (Deployment_Name deploy))])
        (Deployment_Namespace deploy) selector = Inr pods"
  shows "reconcileDeployment env deploy hk =
     (let h1 = hk @ [Log (CheckingDeployment (Deployment_Namespace deploy) (Deployment_Name deploy)),
                     ListPods (Deployment_Namespace deploy) selector]
      in if pods = [] then h1
         else fold (reconcilePod env (fst (gatherPullSecrets env (pods ! 0) h1))) pods
                (snd (gatherPullSecrets env (pods ! 0) h1)))"
  using assms by (cases pods) (simp_all add: reconcileDeployment_def Let_def split: prod.splits)

lemma gatherPullSecrets_extends: "\<exists>evs. snd (gatherPullSecrets env pod h) = h @ evs"
  unfolding gatherPullSecrets_def by (rule gatherPullSecrets_loop_extends)

lemma reconcileDeployment_lists:
  assumes "lookup (Annotations deploy) annotationKey = ''true''"
    and "LabelSelectorAsSelector env (Selector deploy) = Inr selector"
  shows "ListPods (Deployment_Namespace deploy) selector
           \<in> set (drop (length hk) (reconcileDeployment env deploy hk))"
proof -
  let ?c = "Log (CheckingDeployment (Deployment_Namespace deploy) (Deployment_Name deploy))"
  let ?l = "ListPods (Deployment_Namespace deploy) selector"
  let ?h1 = "hk @ [?c, ?l]"
  show ?thesis
  proof (cases "Pods_List env (hk @ [?c]) (Deployment_Namespace deploy) selector")
    case (Inl err)
    with assms show ?thesis by (simp add: reconcileDeployment_def Let_def)
  next
    case (Inr pods)
    note eq = reconcileDeployment_success[OF assms Inr]
    show ?thesis
    proof (cases "pods = []")
      case True
      with eq show ?thesis by (simp add: Let_def)
    next
      case False
      let ?g = "gatherPullSecrets env (pods ! 0) ?h1"
      from gatherPullSecrets_extends[of env "pods ! 0" ?h1]
      obtain e1 where e1: "snd ?g = ?h1 @ e1" ..
      from fold_extends[of "reconcilePod env (fst ?g)" pods "snd ?g", OF reconcilePod_extends]
      obtain e2 where e2: "fold (reconcilePod env (fst ?g)) pods (snd ?g) = snd ?g @ e2" ..
      from eq False e1 e2 have "reconcileDeployment env deploy hk = hk @ [?c, ?l] @ e1 @ e2"
        by (simp add: Let_def)
      then show ?thesis by simp
    qed
  qed
qed

lemma reconcileDeployment_deletes:
  assumes "lookup (Annotations deploy) annotationKey = ''true''"
    and "LabelSelectorAsSelector env (Selector deploy) = Inr selector"
    and "Pods_List env
        (hk @ [Log (CheckingDeployment (Deployment_Namespace deploy) (Deployment_Name deploy))])
        (Deployment_Namespace deploy) selector = Inr (pbefore @ pod # pafter)"
    and "g = gatherPullSecrets env ((pbefore @ pod # pafter) ! 0)
               (hk @ [Log (CheckingDeployment (Deployment_Namespace deploy) (Deployment_Name deploy)),
                      ListPods (Deployment_Namespace deploy) selector])"
    and "Phase pod = PodRunning"
    and "fst (shouldDeletePod env pod (fst g) (fold (reconcilePod env (fst g)) pbefore (snd g)))"
  shows "DeletePod (Pod_Namespace pod) (Pod_Name pod)
           \<in> set (drop (length hk) (reconcileDeployment env deploy hk))"
proof -
  let ?c = "Log (CheckingDeployment (Deployment_Namespace deploy) (Deployment_Name deploy))"
  let ?l = "ListPods (Deployment_Namespace deploy) selector"
  let ?h1 = "hk @ [?c, ?l]"
  let ?pods = "pbefore @ pod # pafter"
  let ?r = "fold (reconcilePod env (fst g)) ?pods (snd g)"
  from reconcileDeployment_success[OF assms(1-3)] assms(4)
  have eq: "reconcileDeployment env deploy hk = ?r" by (simp add: Let_def)
  from gatherPullSecrets_extends[of env "?pods ! 0" ?h1] assms(4)
  obtain e1 where e1: "snd g = hk @ ([?c, ?l] @ e1)" by auto
  from fold_extends[of "reconcilePod env (fst g)" ?pods "snd g", OF reconcilePod_extends]
  obtain e2 where e2: "?r = snd g @ e2" ..
  from fold_reconcilePod_deletes[OF assms(5,6), of pafter]
  have "DeletePod (Pod_Namespace pod) (Pod_Name pod) \<in> set (drop (length (snd g)) ?r)" .
  then have "DeletePod (Pod_Namespace pod) (Pod_Name pod) \<in> set (drop (length hk) ?r)"
    using drop_extends[OF e1 e2] by blast
  with eq show ?thesis by simp
qed

lemma Reconcile_position:
  assumes "Deployments_List env h namespace = Inr (before @ deploy # after)"
    and "ev \<in> set (drop (length (fold (reconcileDeployment env) before (h @ [ListDeployments namespace])))
                     (reconcileDeployment env deploy
                        (fold (reconcileDeployment env) before (h @ [ListDeployments namespace]))))"
  shows "ev \<in> set (drop (length h) (snd (Reconcile env namespace h)))"
proof -
  let ?Hk = "fold (reconcileDeployment env) before (h @ [ListDeployments namespace])"
  let ?Hd = "reconcileDeployment env deploy ?Hk"
  from fold_extends[of "reconcileDeployment env" before "h @ [ListDeployments namespace]",
      OF reconcileDeployment_extends]
  obtain e0 where e0: "?Hk = h @ ([ListDeployments namespace] @ e0)" by auto
  from reconcileDeployment_extends[of env deploy ?Hk]
  obtain e1 where e1: "?Hd = ?Hk @ e1" ..
  from fold_extends[of "reconcileDeployment env" after ?Hd, OF reconcileDeployment_extends]
  obtain e2 where e2: "fold (reconcileDeployment env) after ?Hd = ?Hd @ e2" ..
  have r: "snd (Reconcile env namespace h) = fold (reconcileDeployment env) after ?Hd"
    using assms(1) by (simp add: Reconcile_def Let_def)
  from drop_extends[OF e0 e1] assms(2) have "ev \<in> set (drop (length h) ?Hd)" by blast
  then have "ev \<in> set (drop (length h) (fold (reconcileDeployment env) after ?Hd))"
    unfolding e2 by auto
  with r show ?thesis by simp
qed

text \<open>
  C8. One pass isolates the failures of its items. \<open>Reconcile\<close> returns an error exactly
  when listing the deployments fails, the error of that failure; whatever fails later,
  it returns none. Every enrolled deployment of the list is evaluated (its log line is
  in the history of the pass), and each deployment is processed in the history that
  the ones before it left and is followed by the ones after it. A selector that does not
  convert adds the deployment's two log lines and nothing else; a failed pod listing adds
  the listing call and its log line and nothing else. A failed deletion adds, after the
  pod's check, the deletion and its two log lines and nothing else; and every running
  pod that is stale when its turn comes gets its delete request, whatever happened to
  the pods before it.

  The other outcomes of an item are fixed as well. A deployment that is not enrolled
  leaves the history as it is. An enrolled deployment whose selector converts and whose
  pods are listed gathers the pull secrets of the first pod, if there is one, and then
  processes every pod of the list in turn. A pod that is not running leaves the history
  as it is, a running pod that is not stale adds the events of its check, and a stale
  one whose deletion succeeds adds the log line and the deletion.

  For the pass as a whole: whatever the deployments before it did, the pods of every
  enrolled deployment of the list whose selector converts are listed during the pass;
  and whatever the deployments and the pods before it did, every running pod of such a
  deployment that is stale when its turn comes has its delete request issued during the
  pass.
\<close>

theorem Reconcile_isolates_failures:
  "fst (Reconcile env namespace h) =
     (case Deployments_List env h namespace of
        Inl err \<Rightarrow> Some (ListingDeployments err)
      | Inr ds \<Rightarrow> None) \<and>
   (\<forall>ds deploy.
      Deployments_List env h namespace = Inr ds \<and> deploy \<in> set ds \<and>
      lookup (Annotations deploy) annotationKey = ''true'' \<longrightarrow>
      Log (CheckingDeployment (Deployment_Namespace deploy) (Deployment_Name deploy))
        \<in> set (snd (Reconcile env namespace h))) \<and>
   (\<forall>before deploy after.
      Deployments_List env h namespace = Inr (before @ deploy # after) \<longrightarrow>
      snd (Reconcile env namespace h) =
        fold (reconcileDeployment env) after
          (reconcileDeployment env deploy
             (fold (reconcileDeployment env) before (h @ [ListDeployments namespace])))) \<and>
   (\<forall>deploy hd err.
      lookup (Annotations deploy) annotationKey = ''true'' \<and>
      LabelSelectorAsSelector env (Selector deploy) = Inl err \<longrightarrow>
      reconcileDeployment env deploy hd =
        hd @ [Log (CheckingDeployment (Deployment_Namespace deploy) (Deployment_Name deploy)),
              Log (ErrorParsingSelector err)]) \<and>
   (\<forall>deploy hd selector err.
      lookup (Annotations deploy) annotationKey = ''true'' \<and>
      LabelSelectorAsSelector env (Selector deploy) = Inr selector \<and>
      Pods_List env
        (hd @ [Log (CheckingDeployment (Deployment_Namespace deploy) (Deployment_Name deploy))])
        (Deployment_Namespace deploy) selector = Inl err \<longrightarrow>
      reconcileDeployment env deploy hd =
        hd @ [Log (CheckingDeployment (Deployment_Namespace deploy) (Deployment_Name deploy)),
              ListPods (Deployment_Namespace deploy) selector,
              Log (ErrorListingPods err)]) \<and>
   (\<forall>pullSecrets pod hp h1 err.
      Phase pod = PodRunning \<and> shouldDeletePod env pod pullSecrets hp = (True, h1) \<and>
      Pods_Delete env (h1 @ [Log (DeletingStalePod (Pod_Namespace pod) (Pod_Name pod))])
        (Pod_Namespace pod) (Pod_Name pod) = Some err \<longrightarrow>
      reconcilePod env pullSecrets pod hp =
        h1 @ [Log (DeletingStalePod (Pod_Namespace pod) (Pod_Name pod)),
              DeletePod (Pod_Namespace pod) (Pod_Name pod),
              Log (ErrorDeletingPod (Pod_Name pod) err)]) \<and>
   (\<forall>pullSecrets before pod after hp.
      Phase pod = PodRunning \<and>
      fst (shouldDeletePod env pod pullSecrets (fold (reconcilePod env pullSecrets) before hp)) \<longrightarrow>
      DeletePod (Pod_Namespace pod) (Pod_Name pod)
        \<in> set (drop (length hp) (fold (reconcilePod env pullSecrets) (before @ pod # after) hp))) \<and>
   (\<forall>deploy hd.
      lookup (Annotations deploy) annotationKey \<noteq> ''true'' \<longrightarrow>
      reconcileDeployment env deploy hd = hd) \<and>
   (\<forall>deploy hd selector pods.
      lookup (Annotations deploy) annotationKey = ''true'' \<and>
      LabelSelectorAsSelector env (Selector deploy) = Inr selector \<and>
      Pods_List env
        (hd @ [Log (CheckingDeployment (Deployment_Namespace deploy) (Deployment_Name deploy))])
        (Deployment_Namespace deploy) selector = Inr pods \<longrightarrow>
      reconcileDeployment env deploy hd =
        (let h1 = hd @ [Log (CheckingDeployment (Deployment_Namespace deploy) (Deployment_Name deploy)),
                        ListPods (Deployment_Namespace deploy) selector]
         in if pods = [] then h1
            else fold (reconcilePod env (fst (gatherPullSecrets env (pods ! 0) h1))) pods
                   (snd (gatherPullSecrets env (pods ! 0) h1)))) \<and>
   (\<forall>pullSecrets pod hp.
      Phase pod \<noteq> PodRunning \<longrightarrow> reconcilePod env pullSecrets pod hp = hp) \<and>
   (\<forall>pullSecrets pod hp h1.
      Phase pod = PodRunning \<and> shouldDeletePod env pod pullSecrets hp = (False, h1) \<longrightarrow>
      reconcilePod env pullSecrets pod hp = h1) \<and>
   (\<forall>pullSecrets pod hp h1.
      Phase pod = PodRunning \<and> shouldDeletePod env pod pullSecrets hp = (True, h1) \<and>
      Pods_Delete env (h1 @ [Log (DeletingStalePod (Pod_Namespace pod) (Pod_Name pod))])
        (Pod_Namespace pod) (Pod_Name pod) = None \<longrightarrow>
      reconcilePod env pullSecrets pod hp =
        h1 @ [Log (DeletingStalePod (Pod_Namespace pod) (Pod_Name pod)),
              DeletePod (Pod_Namespace pod) (Pod_Name pod)]) \<and>
   (\<forall>before deploy after selector.
      Deployments_List env h namespace = Inr (before @ deploy # after) \<and>
      lookup (Annotations deploy) annotationKey = ''true'' \<and>
      LabelSelectorAsSelector env (Selector deploy) = Inr selector \<longrightarrow>
      ListPods (Deployment_Namespace deploy) selector
        \<in> set (drop (length h) (snd (Reconcile env namespace h)))) \<and>
   (\<forall>before deploy after selector pbefore pod pafter.
      (let hd = fold (reconcileDeployment env) before (h @ [ListDeployments namespace]);
           checking = Log (CheckingDeployment (Deployment_Namespace deploy) (Deployment_Name deploy));
           g = gatherPullSecrets env ((pbefore @ pod # pafter) ! 0)
                 (hd @ [checking, ListPods (Deployment_Namespace deploy) selector])
       in Deployments_List env h namespace = Inr (before @ deploy # after) \<and>
          lookup (Annotations deploy) annotationKey = ''true'' \<and>
          LabelSelectorAsSelector env (Selector deploy) = Inr selector \<and>
          Pods_List env (hd @ [checking]) (Deployment_Namespace deploy) selector =
            Inr (pbefore @ pod # pafter) \<and>
          Phase pod = PodRunning \<and>
          fst (shouldDeletePod env pod (fst g) (fold (reconcilePod env (fst g)) pbefore (snd g))) \<longrightarrow>
          DeletePod (Pod_Namespace pod) (Pod_Name pod)
            \<in> set (drop (length h) (snd (Reconcile env namespace h)))))"
proof -
  have 1: "fst (Reconcile env namespace h) =
     (case Deployments_List env h namespace of
        Inl err \<Rightarrow> Some (ListingDeployments err)
      | Inr ds \<Rightarrow> None)"
    by (simp add: Reconcile_def Let_def split: sum.splits)
  have 2: "Log (CheckingDeployment (Deployment_Namespace deploy) (Deployment_Name deploy))
        \<in> set (snd (Reconcile env namespace h))"
    if "Deployments_List env h namespace = Inr ds" "deploy \<in> set ds"
      "lookup (Annotations deploy) annotationKey = ''true''" for ds deploy
    using that fold_reconcileDeployment_checking[of deploy ds env "h @ [ListDeployments namespace]"]
    by (simp add: Reconcile_def Let_def)
  have 3: "snd (Reconcile env namespace h) =
        fold (reconcileDeployment env) after
          (reconcileDeployment env deploy
             (fold (reconcileDeployment env) before (h @ [ListDeployments namespace])))"
    if "Deployments_List env h namespace = Inr (before @ deploy # after)" for before deploy after
    using that by (simp add: Reconcile_def Let_def)
  have 4: "reconcileDeployment env deploy hk =
        hk @ [Log (CheckingDeployment (Deployment_Namespace deploy) (Deployment_Name deploy)),
              Log (ErrorParsingSelector err)]"
    if "lookup (Annotations deploy) annotationKey = ''true''"
      "LabelSelectorAsSelector env (Selector deploy) = Inl err" for deploy hk err
    using that by (simp add: reconcileDeployment_def Let_def)
  have 5: "reconcileDeployment env deploy hk =
        hk @ [Log (CheckingDeployment (Deployment_Namespace deploy) (Deployment_Name deploy)),
              ListPods (Deployment_Namespace deploy) selector,
              Log (ErrorListingPods err)]"
    if "lookup (Annotations deploy) annotationKey = ''true''"
      "LabelSelectorAsSelector env (Selector deploy) = Inr selector"
      "Pods_List env
        (hk @ [Log (CheckingDeployment (Deployment_Namespace deploy) (Deployment_Name deploy))])
        (Deployment_Namespace deploy) selector = Inl err" for deploy hk selector err
    using that by (simp add: reconcileDeployment_def Let_def)
  have 6: "reconcilePod env pullSecrets pod hp =
        h1 @ [Log (DeletingStalePod (Pod_Namespace pod) (Pod_Name pod)),
              DeletePod (Pod_Namespace pod) (Pod_Name pod),
              Log (ErrorDeletingPod (Pod_Name pod) err)]"
    if "Phase pod = PodRunning" "shouldDeletePod env pod pullSecrets hp = (True, h1)"
      "Pods_Delete env (h1 @ [Log (DeletingStalePod (Pod_Namespace pod) (Pod_Name pod))])
        (Pod_Namespace pod) (Pod_Name pod) = Some err" for pullSecrets pod hp h1 err
    using that by (simp add: reconcilePod_def Let_def)
  have 7: "DeletePod (Pod_Namespace pod) (Pod_Name pod)
        \<in> set (drop (length hp) (fold (reconcilePod env pullSecrets) (before @ pod # after) hp))"
    if "Phase pod = PodRunning"
      "fst (shouldDeletePod env pod pullSecrets (fold (reconcilePod env pullSecrets) before hp))"
    for pullSecrets before pod after hp
    using that by (rule fold_reconcilePod_deletes)
  have 8: "reconcileDeployment env deploy hk = hk"
    if "lookup (Annotations deploy) annotationKey \<noteq> ''true''" for deploy hk
    using that by (simp add: reconcileDeployment_def)
  have 9: "reconcileDeployment env deploy hk =
        (let h1 = hk @ [Log (CheckingDeployment (Deployment_Namespace deploy) (Deployment_Name deploy)),
                        ListPods (Deployment_Namespace deploy) selector]
         in if pods = [] then h1
            else fold (reconcilePod env (fst (gatherPullSecrets env (pods ! 0) h1))) pods
                   (snd (gatherPullSecrets env (pods ! 0) h1)))"
    if "lookup (Annotations deploy) annotationKey = ''true''"
      "LabelSelectorAsSelector env (Selector deploy) = Inr selector"
      "Pods_List env
        (hk @ [Log (CheckingDeployment (Deployment_Namespace deploy) (Deployment_Name deploy))])
        (Deployment_Namespace deploy) selector = Inr pods" for deploy hk selector pods
    using that by (rule reconcileDeployment_success)
  have 10: "reconcilePod env pullSecrets pod hp = hp"
    if "Phase pod \<noteq> PodRunning" for pullSecrets pod hp
    using that by (simp add: reconcilePod_def)
  have 11: "reconcilePod env pullSecrets pod hp = h1"
    if "Phase pod = PodRunning" "shouldDeletePod env pod pullSecrets hp = (False, h1)"
    for pullSecrets pod hp h1
    using that by (simp add: reconcilePod_def)
  have 12: "reconcilePod env pullSecrets pod hp =
        h1 @ [Log (DeletingStalePod (Pod_Namespace pod) (Pod_Name pod)),
              DeletePod (Pod_Namespace pod) (Pod_Name pod)]"
    if "Phase pod = PodRunning" "shouldDeletePod env pod pullSecrets hp = (True, h1)"
      "Pods_Delete env (h1 @ [Log (DeletingStalePod (Pod_Namespace pod) (Pod_Name pod))])
        (Pod_Namespace pod) (Pod_Name pod) = None" for pullSecrets pod hp h1
    using that by (simp add: reconcilePod_def Let_def)
  have 13: "ListPods (Deployment_Namespace deploy) selector
        \<in> set (drop (length h) (snd (Reconcile env namespace h)))"
    if "Deployments_List env h namespace = Inr (before @ deploy # after)"
      "lookup (Annotations deploy) annotationKey = ''true''"
      "LabelSelectorAsSelector env (Selector deploy) = Inr selector"
    for before deploy after selector
    using that(1) reconcileDeployment_lists[OF that(2,3)] by (rule Reconcile_position)
  have 14: "DeletePod (Pod_Namespace pod) (Pod_Name pod)
            \<in> set (drop (length h) (snd (Reconcile env namespace h)))"
    if "Deployments_List env h namespace = Inr (before @ deploy # after)"
      "lookup (Annotations deploy) annotationKey = ''true''"
      "LabelSelectorAsSelector env (Selector deploy) = Inr selector"
      "Pods_List env
         (fold (reconcileDeployment env) before (h @ [ListDeployments namespace]) @
          [Log (CheckingDeployment (Deployment_Namespace deploy) (Deployment_Name deploy))])
         (Deployment_Namespace deploy) selector = Inr (pbefore @ pod # pafter)"
      "Phase pod = PodRunning"
      "fst (shouldDeletePod env pod
              (fst (gatherPullSecrets env ((pbefore @ pod # pafter) ! 0)
                 (fold (reconcileDeployment env) before (h @ [ListDeployments namespace]) @
                    [Log (CheckingDeployment (Deployment_Namespace deploy) (Deployment_Name deploy)),
                     ListPods (Deployment_Namespace deploy) selector])))
              (fold (reconcilePod env
                 (fst (gatherPullSecrets env ((pbefore @ pod # pafter) ! 0)
                   (fold (reconcileDeployment env) before (h @ [ListDeployments namespace]) @
                    [Log (CheckingDeployment (Deployment_Namespace deploy) (Deployment_Name deploy)),
                     ListPods (Deployment_Namespace deploy) selector]))))
                 pbefore
                 (snd (gatherPullSecrets env ((pbefore @ pod # pafter) ! 0)
                   (fold (reconcileDeployment env) before (h @ [ListDeployments namespace]) @
                    [Log (CheckingDeployment (Deployment_Namespace deploy) (Deployment_Name deploy)),
                     ListPods (Deployment_Namespace deploy) selector])))))"
    for before deploy after selector pbefore pod pafter
    using that(1) reconcileDeployment_deletes[OF that(2,3,4) refl that(5,6)]
    by (rule Reconcile_position)
  show ?thesis
    unfolding Let_def
    apply (intro conjI allI impI)
    subgoal by (rule 1)
    subgoal using 2 by blast
    subgoal using 3 by blast
    subgoal using 4 by blast
    subgoal using 5 by blast
    subgoal using 6 by blast
    subgoal using 7 by blast
    subgoal using 8 by blast
    subgoal using 9[unfolded Let_def] by blast
    subgoal using 10 by blast
    subgoal using 11 by blast
    subgoal using 12 by blast
    subgoal using 13 by blast
    subgoal using 14 by blast
    done
qed

theorem Reconcile_isolates_failures_witness:
  "Deployments_List demoCluster [] [] =
     Inr [demoDeployment ''broken'' ''true'' [], demoDeployment ''down'' ''true'' ''app=down'',
          demoDeployment ''web'' ''true'' ''app=web'',
          demoDeployment ''other'' ''TRUE'' ''app=other''] \<and>
   lookup (Annotations (demoDeployment ''web'' ''true'' ''app=web'')) annotationKey = ''true'' \<and>
   LabelSelectorAsSelector demoCluster (Selector (demoDeployment ''broken'' ''true'' [])) =
     Inl (Lib ''invalid selector'') \<and>
   fst (Reconcile demoCluster [] []) = None \<and>
   Log (CheckingDeployment ''default'' ''web'') \<in> set (snd (Reconcile demoCluster [] [])) \<and>
   Log (ErrorParsingSelector (Lib ''invalid selector'')) \<in> set (snd (Reconcile demoCluster [] [])) \<and>
   Log (ErrorListingPods (Lib ''timeout'')) \<in> set (snd (Reconcile demoCluster [] [])) \<and>
   Log (ErrorDeletingPod ''web-0'' (Lib ''forbidden'')) \<in> set (snd (Reconcile demoCluster [] [])) \<and>
   DeletePod ''default'' ''web-1'' \<in> set (snd (Reconcile demoCluster [] [])) \<and>
   ListPods ''default'' ''app=web'' \<in> set (snd (Reconcile demoCluster [] [])) \<and>
   DeletePod ''default'' ''web-0'' \<in> set (snd (Reconcile demoCluster [] []))"
proof -
  let ?broken = "demoDeployment ''broken'' ''true'' []"
  let ?down = "demoDeployment ''down'' ''true'' ''app=down''"
  let ?web = "demoDeployment ''web'' ''true'' ''app=web''"
  let ?other = "demoDeployment ''other'' ''TRUE'' ''app=other''"
  let ?ds = "[?broken, ?down, ?web, ?other]"
  let ?podA = "demoPod ''web-0'' PodRunning [''docker-pullable://nginx@sha256:aaa'']"
  let ?podB = "demoPod ''web-1'' PodRunning [''docker-pullable://nginx@sha256:aaa'']"
  let ?rd = "reconcileDeployment demoCluster"
  let ?R = "snd (Reconcile demoCluster [] [])"
  have l: "Deployments_List demoCluster [] [] = Inr ?ds"
    by (simp add: demoCluster_def demoEnv_def)
  have m: "?web \<in> set ?ds" by simp
  have e: "lookup (Annotations (demoDeployment n ''true'' sel)) annotationKey = ''true''" for n sel
    by (simp add: demoDeployment_def lookup_def)
  have s: "LabelSelectorAsSelector demoCluster (Selector ?broken) = Inl (Lib ''invalid selector'')"
    by (simp add: demoCluster_def demoEnv_def demoDeployment_def)
  have c: "LabelSelectorAsSelector demoCluster (Selector (demoDeployment n en (x # sel))) =
      Inr (x # sel)" for n en x sel
    by (simp add: demoCluster_def demoEnv_def demoDeployment_def)
  have keep: "ev \<in> set (fold ?rd after hk)" if "ev \<in> set hk" for ev after hk
    using reconcileDeployment_extends that by (rule fold_keeps)
  note t = Reconcile_isolates_failures[of demoCluster "[]" "[]"]
  note t1 = t[THEN conjunct1]
  note t2 = t[THEN conjunct2, THEN conjunct1, rule_format]
  note t3 = t[THEN conjunct2, THEN conjunct2, THEN conjunct1, rule_format]
  note t4 = t[THEN conjunct2, THEN conjunct2, THEN conjunct2, THEN conjunct1, rule_format]
  note t5 = t[THEN conjunct2, THEN conjunct2, THEN conjunct2, THEN conjunct2, THEN conjunct1,
      rule_format]
  note t13 = t[THEN conjunct2, THEN conjunct2, THEN conjunct2, THEN conjunct2, THEN conjunct2,
      THEN conjunct2, THEN conjunct2, THEN conjunct2, THEN conjunct2, THEN conjunct2,
      THEN conjunct2, THEN conjunct2, THEN conjunct1, rule_format]
  note t14 = t[THEN conjunct2, THEN conjunct2, THEN conjunct2, THEN conjunct2, THEN conjunct2,
      THEN conjunct2, THEN conjunct2, THEN conjunct2, THEN conjunct2, THEN conjunct2,
      THEN conjunct2, THEN conjunct2, THEN conjunct2, unfolded Let_def, rule_format]
  from t1 l have 1: "fst (Reconcile demoCluster [] []) = None" by simp
  from t2[of ?ds ?web] l m e
  have "Log (CheckingDeployment (Deployment_Namespace ?web) (Deployment_Name ?web)) \<in> set ?R"
    by blast
  then have 2: "Log (CheckingDeployment ''default'' ''web'') \<in> set ?R"
    by (simp add: demoDeployment_def)
  have r3: "?R = fold ?rd [?down, ?web, ?other]
      (?rd ?broken (fold ?rd [] ([] @ [ListDeployments []])))"
    by (rule t3) (simp add: l)
  have e3: "?rd ?broken hk =
      hk @ [Log (CheckingDeployment (Deployment_Namespace ?broken) (Deployment_Name ?broken)),
            Log (ErrorParsingSelector (Lib ''invalid selector''))]" for hk
    by (rule t4) (simp add: e s)
  have 3: "Log (ErrorParsingSelector (Lib ''invalid selector'')) \<in> set ?R"
    unfolding r3 e3 by (rule keep) simp
  have r4: "?R = fold ?rd [?web, ?other]
      (?rd ?down (fold ?rd [?broken] ([] @ [ListDeployments []])))"
    by (rule t3) (simp add: l)
  have e4: "?rd ?down hk =
      hk @ [Log (CheckingDeployment (Deployment_Namespace ?down) (Deployment_Name ?down)),
            ListPods (Deployment_Namespace ?down) ''app=down'',
            Log (ErrorListingPods (Lib ''timeout''))]" for hk
    by (rule t5) (simp add: e c, simp add: demoCluster_def demoEnv_def)
  have 4: "Log (ErrorListingPods (Lib ''timeout'')) \<in> set ?R"
    unfolding r4 e4 by (rule keep) simp
  have 5: "Log (ErrorDeletingPod ''web-0'' (Lib ''forbidden'')) \<in> set ?R"
    by code_simp
  have "ListPods (Deployment_Namespace ?web) ''app=web'' \<in> set (drop (length ([] :: event list)) ?R)"
    by (rule t13[where before = "[?broken, ?down]" and deploy = ?web and after = "[?other]"]) (simp add: l e c)
  then have 6: "ListPods ''default'' ''app=web'' \<in> set ?R"
    by (simp add: demoDeployment_def)
  have "DeletePod (Pod_Namespace ?podB) (Pod_Name ?podB) \<in> set (drop (length ([] :: event list)) ?R)"
    apply (rule t14[where before = "[?broken, ?down]" and deploy = ?web and after = "[?other]"
          and selector = "''app=web''" and pbefore = "[?podA]" and pod = ?podB and pafter = "[]"])
    apply (intro conjI)
    subgoal by (simp add: l)
    subgoal by (rule e)
    subgoal by (rule c)
    subgoal by (simp add: demoCluster_def demoEnv_def)
    subgoal by (simp add: demoPod_def)
    subgoal by code_simp
    done
  then have 7: "DeletePod ''default'' ''web-1'' \<in> set ?R"
    by (simp add: demoPod_def)
  have "DeletePod (Pod_Namespace ?podA) (Pod_Name ?podA) \<in> set (drop (length ([] :: event list)) ?R)"
    apply (rule t14[where before = "[?broken, ?down]" and deploy = ?web and after = "[?other]"
          and selector = "''app=web''" and pbefore = "[]" and pod = ?podA and pafter = "[?podB]"])
    apply (intro conjI)
    subgoal by (simp add: l)
    subgoal by (rule e)
    subgoal by (rule c)
    subgoal by (simp add: demoCluster_def demoEnv_def)
    subgoal by (simp add: demoPod_def)
    subgoal by code_simp
    done
  then have 8: "DeletePod ''default'' ''web-0'' \<in> set ?R"
    by (simp add: demoPod_def)
  from l e[of "''web''" "''app=web''"] s 1 2 3 4 5 6 7 8 show ?thesis by blast
qed

end
